theory Spec2Isabelle
  imports Complex_Main
begin

section \<open>Double-precision arithmetic\<close>

text \<open>
  Python floats are IEEE-754 binary64 values. A float is modelled by the real number it
  denotes, and every float operation of the smoothing filters and of the frame processor
  rounds its exact result to the nearest binary64 value, ties to the even significand.
  Signed zeros are identified, and infinities and NaN are outside the model: a result is
  taken to be finite, which the code's results are unless an operation overflows.

  binary64 has 53 significant bits, and the least exponent of its last place is -1074.
\<close>

definition least_exponent :: int where
  "least_exponent = - 1074"

text \<open>
  The greatest binary64 exponent is 1023. Dividing two ints raises OverflowError when the
  quotient is too large for a float, which cannot happen for a dividend up to 2^1023.
\<close>

definition greatest_exponent :: int where
  "greatest_exponent = 1023"

text \<open>Rounding to the nearest integer, a tie going to the even one.\<close>

definition round_half_even :: "real \<Rightarrow> int" where
  "round_half_even y =
     (let f = \<lfloor>y\<rfloor>; d = y - of_int f
      in if d < 1/2 then f else if 1/2 < d then f + 1 else if even f then f else f + 1)"

text \<open>
  The exponent of the unit in the last place of a magnitude: \<open>ulp_exponent m e\<close> is
  called with \<open>m * 2 ^ e\<close> equal to the magnitude and moves \<open>m\<close> into [2^52, 2^53),
  stopping at the least exponent for a subnormal magnitude.
\<close>

function ulp_exponent :: "real \<Rightarrow> int \<Rightarrow> int" where
  "ulp_exponent m e =
     (if 2 ^ 53 \<le> m then ulp_exponent (m / 2) (e + 1)
      else if m < 2 ^ 52 \<and> least_exponent < e then ulp_exponent (2 * m) (e - 1)
      else e)"
  by pat_completeness auto
termination
proof (relation "measures [\<lambda>(m, e). if 2 ^ 53 \<le> m then nat \<lceil>m\<rceil> else 0,
                            \<lambda>(m, e). nat (e - least_exponent)]")
  show "wf (measures [\<lambda>(m::real, e::int). if 2 ^ 53 \<le> m then nat \<lceil>m\<rceil> else 0,
                      \<lambda>(m, e). nat (e - least_exponent)])"
    by simp
next
  fix m :: real and e :: int
  assume big: "2 ^ 53 \<le> m"
  have "\<lceil>m / 2\<rceil> < \<lceil>m\<rceil>"
  proof -
    have "m / 2 + 1 \<le> m" using big by simp
    then have "\<lceil>m / 2\<rceil> + 1 \<le> \<lceil>m\<rceil>"
      by (metis ceiling_add_one ceiling_mono)
    then show ?thesis by simp
  qed
  moreover have "0 < \<lceil>m\<rceil>" using big by (simp add: ceiling_less_iff less_ceiling_iff)
  ultimately show "((m / 2, e + 1), (m, e))
        \<in> measures [\<lambda>(m, e). if 2 ^ 53 \<le> m then nat \<lceil>m\<rceil> else 0,
                     \<lambda>(m, e). nat (e - least_exponent)]"
    using big by auto
next
  fix m :: real and e :: int
  assume "\<not> 2 ^ 53 \<le> m" and "m < 2 ^ 52 \<and> least_exponent < e"
  then show "((2 * m, e - 1), (m, e))
        \<in> measures [\<lambda>(m, e). if 2 ^ 53 \<le> m then nat \<lceil>m\<rceil> else 0,
                     \<lambda>(m, e). nat (e - least_exponent)]"
    by auto
qed

definition round_double :: "real \<Rightarrow> real" where
  "round_double x =
     (let e = ulp_exponent \<bar>x\<bar> 0
      in of_int (round_half_even (x / 2 powi e)) * 2 powi e)"

declare ulp_exponent.simps [simp del]

text \<open>The float operations of Python on finite values.\<close>

definition float_add :: "real \<Rightarrow> real \<Rightarrow> real" where
  "float_add x y = round_double (x + y)"

definition float_sub :: "real \<Rightarrow> real \<Rightarrow> real" where
  "float_sub x y = round_double (x - y)"

definition float_mul :: "real \<Rightarrow> real \<Rightarrow> real" where
  "float_mul x y = round_double (x * y)"

text \<open>True division by a non-zero divisor; the callers model the raise on zero.\<close>

definition float_truediv :: "real \<Rightarrow> real \<Rightarrow> real" where
  "float_truediv x y = round_double (x / y)"

section \<open>Smoothing filters (smart\_camera/core/smoothing.py)\<close>

text \<open>
  Python ints are \<open>int\<close>. Every method of a class takes the object as its first
  argument and returns the updated object next to its result.
\<close>

record ExponentialSmoother =
  alpha :: real
  smoothed_value :: "real option"

definition ExponentialSmoother_init :: "real \<Rightarrow> ExponentialSmoother" where
  "ExponentialSmoother_init a = \<lparr>alpha = max 0 (min 1 a), smoothed_value = None\<rparr>"

definition ExponentialSmoother_smooth ::
  "ExponentialSmoother \<Rightarrow> real \<Rightarrow> real \<times> ExponentialSmoother" where
  "ExponentialSmoother_smooth s new_value =
     (case smoothed_value s of
        None \<Rightarrow> (new_value, s\<lparr>smoothed_value := Some new_value\<rparr>)
      | Some old \<Rightarrow>
          (let v = float_add (float_mul (alpha s) new_value)
                     (float_mul (float_sub 1 (alpha s)) old)
           in (v, s\<lparr>smoothed_value := Some v\<rparr>)))"

definition ExponentialSmoother_reset :: "ExponentialSmoother \<Rightarrow> ExponentialSmoother" where
  "ExponentialSmoother_reset s = s\<lparr>smoothed_value := None\<rparr>"

definition ExponentialSmoother_set_alpha ::
  "ExponentialSmoother \<Rightarrow> real \<Rightarrow> ExponentialSmoother" where
  "ExponentialSmoother_set_alpha s a = s\<lparr>alpha := max 0 (min 1 a)\<rparr>"

text \<open>
  A history of calls on one smoother, used to speak about "every sequence of inputs since
  construction or the last reset".
\<close>

datatype smoother_call = Smooth real | SetAlpha real | Reset

fun smoother_apply :: "smoother_call \<Rightarrow> ExponentialSmoother \<Rightarrow> ExponentialSmoother" where
  "smoother_apply (Smooth v) s = snd (ExponentialSmoother_smooth s v)"
| "smoother_apply (SetAlpha a) s = ExponentialSmoother_set_alpha s a"
| "smoother_apply Reset s = ExponentialSmoother_reset s"

definition smoother_run ::
  "ExponentialSmoother \<Rightarrow> smoother_call list \<Rightarrow> ExponentialSmoother" where
  "smoother_run s calls = fold smoother_apply calls s"

text \<open>The inputs given to \<open>smooth\<close> since construction or the last reset, oldest first.\<close>

fun seen_apply :: "smoother_call \<Rightarrow> real list \<Rightarrow> real list" where
  "seen_apply (Smooth v) vs = vs @ [v]"
| "seen_apply (SetAlpha a) vs = vs"
| "seen_apply Reset vs = []"

definition inputs_seen :: "smoother_call list \<Rightarrow> real list" where
  "inputs_seen calls = fold seen_apply calls []"

record TransformSmoother =
  x_smoother :: ExponentialSmoother
  y_smoother :: ExponentialSmoother
  zoom_smoother :: ExponentialSmoother
  max_shift_per_frame :: int

definition TransformSmoother_init :: "real \<Rightarrow> int \<Rightarrow> TransformSmoother" where
  "TransformSmoother_init a m =
     \<lparr>x_smoother = ExponentialSmoother_init a,
      y_smoother = ExponentialSmoother_init a,
      zoom_smoother = ExponentialSmoother_init a,
      max_shift_per_frame = m\<rparr>"

text \<open>
  The velocity-limiting block of \<open>smooth_transform\<close>, written twice in the source (once
  for x, once for y). It runs after \<open>smooth\<close> has already stored the new value, and it
  reads \<open>prev\<close> from that stored value.
\<close>

definition velocity_limit ::
  "int \<Rightarrow> real \<Rightarrow> ExponentialSmoother \<Rightarrow> real \<times> ExponentialSmoother" where
  "velocity_limit m smoothed sm =
     (case smoothed_value sm of
        None \<Rightarrow> (smoothed, sm)
      | Some prev \<Rightarrow>
          (let delta = float_sub smoothed prev
           in if \<bar>delta\<bar> > of_int m
              then (let limited = float_add prev
                                    (round_double (of_int (if delta > 0 then m else - m)))
                    in (limited, sm\<lparr>smoothed_value := Some limited\<rparr>))
              else (smoothed, sm)))"

definition TransformSmoother_smooth_transform ::
  "TransformSmoother \<Rightarrow> real \<Rightarrow> real \<Rightarrow> real \<Rightarrow> (real \<times> real \<times> real) \<times> TransformSmoother" where
  "TransformSmoother_smooth_transform t target_x target_y target_zoom =
     (let (smoothed_x, xs1) = ExponentialSmoother_smooth (x_smoother t) target_x;
          (smoothed_y, ys1) = ExponentialSmoother_smooth (y_smoother t) target_y;
          (smoothed_zoom, zs1) = ExponentialSmoother_smooth (zoom_smoother t) target_zoom;
          (smoothed_x', xs2) = velocity_limit (max_shift_per_frame t) smoothed_x xs1;
          (smoothed_y', ys2) = velocity_limit (max_shift_per_frame t) smoothed_y ys1
      in ((smoothed_x', smoothed_y', smoothed_zoom),
          t\<lparr>x_smoother := xs2, y_smoother := ys2, zoom_smoother := zs1\<rparr>))"

definition TransformSmoother_reset :: "TransformSmoother \<Rightarrow> TransformSmoother" where
  "TransformSmoother_reset t =
     t\<lparr>x_smoother := ExponentialSmoother_reset (x_smoother t),
       y_smoother := ExponentialSmoother_reset (y_smoother t),
       zoom_smoother := ExponentialSmoother_reset (zoom_smoother t)\<rparr>"

definition TransformSmoother_set_alpha :: "TransformSmoother \<Rightarrow> real \<Rightarrow> TransformSmoother" where
  "TransformSmoother_set_alpha t a =
     t\<lparr>x_smoother := ExponentialSmoother_set_alpha (x_smoother t) a,
       y_smoother := ExponentialSmoother_set_alpha (y_smoother t) a,
       zoom_smoother := ExponentialSmoother_set_alpha (zoom_smoother t) a\<rparr>"

text \<open>
  The rounding error that can have accumulated in a returned value after the inputs
  \<open>vs\<close>: each call after the first rounds four times, which costs at most a relative
  2^-50 of the larger magnitude involved plus 2^-1073.
\<close>

definition max_abs :: "real list \<Rightarrow> real" where
  "max_abs vs = fold (\<lambda>v m. max \<bar>v\<bar> m) vs 0"

definition rounding_slack :: "real list \<Rightarrow> real" where
  "rounding_slack vs =
     ((1 + 1 / 2 ^ 50) ^ (length vs - 1) - 1) * (max_abs vs + 2 powi (least_exponent + 51))"

text \<open>
  Invariant of a smoother against the inputs it has seen since construction or the last
  reset: the factor lies in [0,1], and a stored value exists exactly when an input was
  seen and then lies between the least and the greatest of them, up to the rounding slack.
\<close>

definition smoother_inv :: "ExponentialSmoother \<Rightarrow> real list \<Rightarrow> bool" where
  "smoother_inv s vs =
     (0 \<le> alpha s \<and> alpha s \<le> 1 \<and>
      (case smoothed_value s of
         None \<Rightarrow> vs = []
       | Some x \<Rightarrow> vs \<noteq> [] \<and> Min (set vs) - rounding_slack vs \<le> x
                   \<and> x \<le> Max (set vs) + rounding_slack vs))"

section \<open>Tracking state (smart\_camera/core/tracking\_state.py)\<close>

text \<open>Time stamps are reals, and the difference of two time stamps is taken exactly.\<close>

type_synonym bbox = "int \<times> int \<times> int \<times> int"

record FaceDetection =
  bbox :: bbox
  confidence :: real
  center :: "int \<times> int"

datatype TrackingStatus = TRACKING | LOST_RECENT | LOST_LONG

record TrackingState =
  memory_duration :: real
  last_bbox :: "bbox option"
  last_detection_time :: "real option"
  status :: TrackingStatus

definition TrackingState_init :: "real \<Rightarrow> TrackingState" where
  "TrackingState_init md =
     \<lparr>memory_duration = md, last_bbox = None, last_detection_time = None,
      status = LOST_LONG\<rparr>"

definition TrackingState_update ::
  "TrackingState \<Rightarrow> FaceDetection option \<Rightarrow> real \<Rightarrow> TrackingStatus \<times> TrackingState" where
  "TrackingState_update s detection timestamp =
     (let s' =
        (case detection of
           Some d \<Rightarrow>
             s\<lparr>last_bbox := Some (bbox d), last_detection_time := Some timestamp,
               status := TRACKING\<rparr>
         | None \<Rightarrow>
             (case last_detection_time s of
                None \<Rightarrow> s\<lparr>status := LOST_LONG\<rparr>
              | Some t0 \<Rightarrow>
                  (let time_since_detection = timestamp - t0
                   in if time_since_detection < memory_duration s
                      then s\<lparr>status := LOST_RECENT\<rparr>
                      else s\<lparr>status := LOST_LONG\<rparr>)))
      in (status s', s'))"

definition TrackingState_get_target_bbox :: "TrackingState \<Rightarrow> bbox option" where
  "TrackingState_get_target_bbox s =
     (if status s = TRACKING \<or> status s = LOST_RECENT then last_bbox s else None)"

definition TrackingState_reset :: "TrackingState \<Rightarrow> TrackingState" where
  "TrackingState_reset s =
     s\<lparr>last_bbox := None, last_detection_time := None, status := LOST_LONG\<rparr>"

text \<open>A run of updates without a detection, at the given timestamps in order.\<close>

definition updates_without_detection :: "TrackingState \<Rightarrow> real list \<Rightarrow> TrackingState" where
  "updates_without_detection s ts = fold (\<lambda>t s. snd (TrackingState_update s None t)) ts s"

section \<open>Configuration records\<close>

text \<open>
  \<open>ProcessorConfig\<close> (frame\_processor.py) and \<open>AppConfig\<close> (config/settings.py) are
  dataclasses without a \<open>__post_init__\<close>: the generated constructor stores its arguments
  and has no failing branch. The constructors are given a result of type
  \<open>error + _\<close> so that "construction is rejected" can be stated.
\<close>

datatype error = ZeroDivisionError | cv2_error

record ProcessorConfig =
  target_face_ratio :: real
  min_zoom :: real
  max_zoom :: real
  smoothing_factor :: real
  max_shift_per_frame :: int

definition ProcessorConfig_init ::
  "real \<Rightarrow> real \<Rightarrow> real \<Rightarrow> real \<Rightarrow> int \<Rightarrow> error + ProcessorConfig" where
  "ProcessorConfig_init tfr mn mx sf ms =
     Inr \<lparr>target_face_ratio = tfr, min_zoom = mn, max_zoom = mx, smoothing_factor = sf,
          max_shift_per_frame = ms\<rparr>"

record AppConfig =
  camera_index :: int
  resolution :: "int \<times> int"
  fps :: int
  tracking_speed :: real
  zoom_level :: string
  face_size_ratio :: real
  min_detection_confidence :: real
  max_cpu_percent :: real
  enable_gpu :: bool

definition AppConfig_init ::
  "int \<Rightarrow> int \<times> int \<Rightarrow> int \<Rightarrow> real \<Rightarrow> string \<Rightarrow> real \<Rightarrow> real \<Rightarrow> real \<Rightarrow> bool
   \<Rightarrow> error + AppConfig" where
  "AppConfig_init ci res f ts zl fsr mdc mcp gpu =
     Inr \<lparr>camera_index = ci, resolution = res, fps = f, tracking_speed = ts, zoom_level = zl,
          face_size_ratio = fsr, min_detection_confidence = mdc, max_cpu_percent = mcp,
          enable_gpu = gpu\<rparr>"

text \<open>
  The processor configuration that \<open>CameraController.start\<close> and
  \<open>CameraController.update_settings\<close> build from the application configuration; the
  zoom bounds and the shift limit take the dataclass defaults.
\<close>

definition processor_config_of_app :: "AppConfig \<Rightarrow> error + ProcessorConfig" where
  "processor_config_of_app app =
     ProcessorConfig_init (face_size_ratio app) 1 3 (tracking_speed app) 50"

text \<open>
  The validity condition as the specification words it: ratios in (0,1), and zoom bounds
  with 1 \<le> min\_zoom \<le> max\_zoom. It has no counterpart in the source.
\<close>

definition spec_config_valid :: "ProcessorConfig \<Rightarrow> bool" where
  "spec_config_valid c =
     (0 < target_face_ratio c \<and> target_face_ratio c < 1 \<and>
      1 \<le> min_zoom c \<and> min_zoom c \<le> max_zoom c)"

section \<open>Frame processor (smart\_camera/core/frame\_processor.py)\<close>

text \<open>
  A frame is a numpy array of shape (rows, cols, channels); \<open>size\<close> is the product of the
  shape. \<open>frame.shape[:2]\<close> is (rows, cols).
\<close>

record ndarray =
  rows :: nat
  cols :: nat
  channels :: nat
  pixels :: "nat list"

definition ndarray_size :: "ndarray \<Rightarrow> nat" where
  "ndarray_size f = rows f * cols f * channels f"

text \<open>Python's \<open>int(x)\<close> on a float truncates towards zero.\<close>

definition py_int :: "real \<Rightarrow> int" where
  "py_int r = (if 0 \<le> r then \<lfloor>r\<rfloor> else \<lceil>r\<rceil>)"

record FrameProcessor =
  config :: ProcessorConfig
  smoother :: TransformSmoother
  frame_center :: "(int \<times> int) option"

definition FrameProcessor_init :: "ProcessorConfig \<Rightarrow> FrameProcessor" where
  "FrameProcessor_init cfg =
     \<lparr>config = cfg,
      smoother = TransformSmoother_init (smoothing_factor cfg)
                   (ProcessorConfig.max_shift_per_frame cfg),
      frame_center = None\<rparr>"

text \<open>
  Lines 105-106 of \<open>_calculate_zoom\<close>: the zoom before clamping. Dividing two ints
  gives the correctly rounded quotient; a quotient that rounds to zero makes the second
  division raise.
\<close>

definition target_zoom_unclamped :: "ProcessorConfig \<Rightarrow> int \<Rightarrow> int \<Rightarrow> real" where
  "target_zoom_unclamped cfg face_height frame_height =
     float_truediv (target_face_ratio cfg)
       (float_truediv (of_int face_height) (of_int frame_height))"

definition FrameProcessor_calculate_zoom ::
  "ProcessorConfig \<Rightarrow> int \<Rightarrow> int \<Rightarrow> error + real" where
  "FrameProcessor_calculate_zoom cfg face_height frame_height =
     (if face_height \<le> 0 then Inr (min_zoom cfg)
      else if frame_height = 0 then Inl ZeroDivisionError
      else if float_truediv (of_int face_height) (of_int frame_height) = 0
           then Inl ZeroDivisionError
      else Inr (max (min_zoom cfg)
                  (min (max_zoom cfg) (target_zoom_unclamped cfg face_height frame_height))))"

text \<open>
  \<open>_apply_transform\<close>. The numpy slice and the OpenCV resize are library code: the
  parameter \<open>crop_resize frame y1 y2 x1 x2 width height\<close> stands for
  \<open>cv2.resize(frame[y1:y2, x1:x2], (width, height), interpolation=cv2.INTER_LINEAR)\<close>,
  which may raise \<open>cv2.error\<close>.
\<close>

type_synonym crop_resize = "ndarray \<Rightarrow> int \<Rightarrow> int \<Rightarrow> int \<Rightarrow> int \<Rightarrow> int \<Rightarrow> int \<Rightarrow> error + ndarray"

definition FrameProcessor_apply_transform ::
  "crop_resize \<Rightarrow> ndarray \<Rightarrow> int \<Rightarrow> int \<Rightarrow> real \<Rightarrow> error + ndarray" where
  "FrameProcessor_apply_transform cr frame center_x center_y zoom =
     (let height = int (rows frame); width = int (cols frame)
      in if zoom = 0 then Inl ZeroDivisionError
         else
           (let new_width = py_int (float_truediv (round_double (of_int width)) zoom);
                new_height = py_int (float_truediv (round_double (of_int height)) zoom);
                x1 = center_x - new_width div 2;
                y1 = center_y - new_height div 2;
                x1' = max 0 (min x1 (width - new_width));
                y1' = max 0 (min y1 (height - new_height));
                x2 = x1' + new_width;
                y2 = y1' + new_height
            in cr frame y1' y2 x1' x2 width height))"

text \<open>
  \<open>process\<close>. The frame argument may be \<open>None\<close>. The result pairs what the call
  returns (or the exception it raises) with the processor as the call leaves it.
\<close>

definition FrameProcessor_process ::
  "crop_resize \<Rightarrow> FrameProcessor \<Rightarrow> ndarray option \<Rightarrow> bbox option
   \<Rightarrow> (error + ndarray option) \<times> FrameProcessor" where
  "FrameProcessor_process cr p frame target_bbox =
     (case frame of
        None \<Rightarrow> (Inr None, p)
      | Some f \<Rightarrow>
          if ndarray_size f = 0 then (Inr (Some f), p)
          else
            (let height = int (rows f); width = int (cols f);
                 p1 = (if frame_center p = None
                       then p\<lparr>frame_center := Some (width div 2, height div 2)\<rparr>
                       else p)
             in case target_bbox of
                  None \<Rightarrow> (Inr (Some f), p1)
                | Some (x, y, w, h) \<Rightarrow>
                    (let face_center_x = x + w div 2;
                         face_center_y = y + h div 2
                     in case FrameProcessor_calculate_zoom (config p1) h height of
                          Inl e \<Rightarrow> (Inl e, p1)
                        | Inr target_zoom \<Rightarrow>
                            (let (sm, t') = TransformSmoother_smooth_transform (smoother p1)
                                              (round_double (of_int face_center_x))
                                              (round_double (of_int face_center_y))
                                              target_zoom;
                                 p2 = p1\<lparr>smoother := t'\<rparr>
                             in case sm of
                                  (smoothed_x, smoothed_y, smoothed_zoom) \<Rightarrow>
                                    (case FrameProcessor_apply_transform cr f (py_int smoothed_x)
                                            (py_int smoothed_y) smoothed_zoom of
                                       Inl e \<Rightarrow> (Inl e, p2)
                                     | Inr out \<Rightarrow> (Inr (Some out), p2))))))"

definition FrameProcessor_update_config ::
  "FrameProcessor \<Rightarrow> ProcessorConfig \<Rightarrow> FrameProcessor" where
  "FrameProcessor_update_config p cfg =
     p\<lparr>config := cfg,
       smoother :=
         (TransformSmoother_set_alpha (smoother p) (smoothing_factor cfg))
           \<lparr>TransformSmoother.max_shift_per_frame := ProcessorConfig.max_shift_per_frame cfg\<rparr>\<rparr>"

text \<open>A processor in the middle of a run, with history on all three axes.\<close>

definition example_processor :: FrameProcessor where
  "example_processor =
     \<lparr>config = \<lparr>target_face_ratio = 4/10, min_zoom = 1, max_zoom = 3,
                smoothing_factor = 15/100, max_shift_per_frame = 50\<rparr>,
      smoother = \<lparr>x_smoother = \<lparr>alpha = 15/100, smoothed_value = Some 640\<rparr>,
                  y_smoother = \<lparr>alpha = 15/100, smoothed_value = Some 360\<rparr>,
                  zoom_smoother = \<lparr>alpha = 15/100, smoothed_value = Some 2\<rparr>,
                  max_shift_per_frame = 50\<rparr>,
      frame_center = Some (640, 360)\<rparr>"

section \<open>Pipeline loop (smart\_camera/core/controller.py)\<close>

text \<open>
  The fields of \<open>CameraController\<close> that the frame-read failure path reads or writes.
  One iteration of \<open>_process_loop\<close> is driven by what happens in it:
  \<^item> \<open>ReadNone\<close>: \<open>read_frame\<close> returns \<open>None\<close>;
  \<^item> \<open>ReadFrame None\<close>: a frame is read and the rest of the iteration completes;
  \<^item> \<open>ReadFrame (Some e)\<close>: a frame is read and a later statement of the iteration
    raises an exception with message \<open>e\<close>, caught by the handler of the loop body;
  \<^item> \<open>ReadRaises e\<close>: \<open>read_frame\<close> itself raises, caught by the same handler.
  The statements after the read (lines 191-242) assign neither \<open>running\<close> nor
  \<open>frame_read_failures\<close> nor \<open>error_message\<close>.
\<close>

record CameraController =
  running :: bool
  frame_read_failures :: int
  error_message :: "string option"

datatype tick = ReadNone | ReadFrame "string option" | ReadRaises string

fun CameraController_tick :: "CameraController \<Rightarrow> tick \<Rightarrow> CameraController" where
  "CameraController_tick c ReadNone =
     (let c1 = c\<lparr>frame_read_failures := frame_read_failures c + 1\<rparr>
      in if frame_read_failures c1 > 3
         then c1\<lparr>error_message := Some ''Camera connection lost'', running := False\<rparr>
         else c1)"
| "CameraController_tick c (ReadFrame None) = c\<lparr>frame_read_failures := 0\<rparr>"
| "CameraController_tick c (ReadFrame (Some e)) =
     c\<lparr>frame_read_failures := 0, error_message := Some e\<rparr>"
| "CameraController_tick c (ReadRaises e) = c\<lparr>error_message := Some e\<rparr>"

text \<open>
  The loop over the iterations still to come. It returns the controller together with the
  iterations it never ran: the loop is left as soon as \<open>running\<close> is false.
\<close>

fun CameraController_process_loop ::
  "CameraController \<Rightarrow> tick list \<Rightarrow> CameraController \<times> tick list" where
  "CameraController_process_loop c [] = (c, [])"
| "CameraController_process_loop c (t # ts) =
     (if running c then CameraController_process_loop (CameraController_tick c t) ts
      else (c, t # ts))"

text \<open>
  \<open>__init__\<close>, \<open>start\<close> and \<open>stop\<close> on the same three fields. What \<open>start\<close>
  does depends on the devices: \<open>Started\<close> when every component initialises, the other
  outcomes for each of its failure branches. Neither \<open>start\<close> nor \<open>stop\<close> assigns
  \<open>frame_read_failures\<close>, and a successful \<open>start\<close> leaves \<open>error_message\<close> alone.
\<close>

definition CameraController_init :: CameraController where
  "CameraController_init = \<lparr>running = False, frame_read_failures = 0, error_message = None\<rparr>"

definition CameraController_stop :: "CameraController \<Rightarrow> CameraController" where
  "CameraController_stop c = (if \<not> running c then c else c\<lparr>running := False\<rparr>)"

datatype start_outcome =
  Started | NoCamera | DetectorFailed string | VirtualCameraFailed string | StartRaised string

fun CameraController_start :: "CameraController \<Rightarrow> start_outcome \<Rightarrow> bool \<times> CameraController" where
  "CameraController_start c outcome =
     (if running c then (True, c)
      else case outcome of
             Started \<Rightarrow> (True, c\<lparr>running := True\<rparr>)
           | NoCamera \<Rightarrow>
               (False, c\<lparr>error_message := Some ''No camera detected. Please connect a webcam.''\<rparr>)
           | DetectorFailed e \<Rightarrow>
               (False, c\<lparr>error_message := Some (''Face detection failed to initialize: '' @ e)\<rparr>)
           | VirtualCameraFailed e \<Rightarrow>
               (False, c\<lparr>error_message := Some (''Virtual camera failed: '' @ e)\<rparr>)
           | StartRaised e \<Rightarrow>
               (False, CameraController_stop (c\<lparr>error_message := Some (''Failed to start: '' @ e)\<rparr>)))"

text \<open>
  The controller after its first run has ended on the fatal path: constructed, started,
  and four reads in a row have returned \<open>None\<close>.
\<close>

definition after_lost_connection :: CameraController where
  "after_lost_connection =
     fst (CameraController_process_loop
            (snd (CameraController_start CameraController_init Started))
            [ReadNone, ReadNone, ReadNone, ReadNone])"

section \<open>Properties of rounding\<close>

lemma ulp_up: "2 ^ 53 \<le> m \<Longrightarrow> ulp_exponent m e = ulp_exponent (m / 2) (e + 1)"
  by (subst ulp_exponent.simps) simp

lemma ulp_down:
  "m < 2 ^ 52 \<Longrightarrow> - 1074 < e \<Longrightarrow> ulp_exponent m e = ulp_exponent (2 * m) (e - 1)"
  by (subst ulp_exponent.simps) (simp add: least_exponent_def)

lemma ulp_stop: "2 ^ 52 \<le> m \<Longrightarrow> m < 2 ^ 53 \<Longrightarrow> ulp_exponent m e = e"
  by (subst ulp_exponent.simps) simp

lemmas round_double_eval =
  round_double_def Let_def round_half_even_def ulp_up ulp_down ulp_stop power_int_minus

lemma round_half_even_error: "\<bar>of_int (round_half_even y) - y\<bar> \<le> 1/2"
proof -
  have "of_int \<lfloor>y\<rfloor> \<le> y" "y < of_int \<lfloor>y\<rfloor> + 1" by linarith+
  then show ?thesis
    by (auto simp add: round_half_even_def Let_def)
qed

lemma round_double_zero: "round_double 0 = 0"
  by (simp add: round_double_def round_half_even_def)

lemma ulp_exponent_spec:
  "0 \<le> m \<Longrightarrow> least_exponent \<le> e \<Longrightarrow>
   least_exponent \<le> ulp_exponent m e
   \<and> m * 2 powi (e - ulp_exponent m e) < 2 ^ 53
   \<and> (2 ^ 52 \<le> m * 2 powi (e - ulp_exponent m e) \<or> ulp_exponent m e = least_exponent)"
proof (induction m e rule: ulp_exponent.induct)
  case (1 m e)
  show ?case
  proof (cases "2 ^ 53 \<le> m")
    case True
    have eq: "ulp_exponent m e = ulp_exponent (m / 2) (e + 1)" using True by (rule ulp_up)
    have sc: "m / 2 * 2 powi (e + 1 - k) = m * 2 powi (e - k)" for k
    proof -
      have "(2::real) powi (e + 1 - k) = 2 powi (e - k) * 2"
        using power_int_add [of "2::real" "e - k" 1] by (simp add: algebra_simps)
      then show ?thesis by simp
    qed
    from "1.IH"(1) [OF True] "1.prems" have
      "least_exponent \<le> ulp_exponent (m / 2) (e + 1)
       \<and> m / 2 * 2 powi (e + 1 - ulp_exponent (m / 2) (e + 1)) < 2 ^ 53
       \<and> (2 ^ 52 \<le> m / 2 * 2 powi (e + 1 - ulp_exponent (m / 2) (e + 1))
           \<or> ulp_exponent (m / 2) (e + 1) = least_exponent)"
      by simp
    then show ?thesis unfolding eq sc .
  next
    case False
    show ?thesis
    proof (cases "m < 2 ^ 52 \<and> least_exponent < e")
      case True
      have eq: "ulp_exponent m e = ulp_exponent (2 * m) (e - 1)"
        using True by (subst ulp_exponent.simps) simp
      have sc: "2 * m * 2 powi (e - 1 - k) = m * 2 powi (e - k)" for k
      proof -
        have "(2::real) powi (e - k) = 2 powi (e - 1 - k) * 2"
          using power_int_add [of "2::real" "e - 1 - k" 1] by (simp add: algebra_simps)
        then show ?thesis by simp
      qed
      from "1.IH"(2) [OF False True] "1.prems" True have
        "least_exponent \<le> ulp_exponent (2 * m) (e - 1)
         \<and> 2 * m * 2 powi (e - 1 - ulp_exponent (2 * m) (e - 1)) < 2 ^ 53
         \<and> (2 ^ 52 \<le> 2 * m * 2 powi (e - 1 - ulp_exponent (2 * m) (e - 1))
             \<or> ulp_exponent (2 * m) (e - 1) = least_exponent)"
        by simp
      then show ?thesis unfolding eq sc .
    next
      case stop: False
      have eq: "ulp_exponent m e = e"
        using False stop by (subst ulp_exponent.simps) auto
      show ?thesis using False stop "1.prems" unfolding eq by auto
    qed
  qed
qed

lemma round_double_error:
  "\<bar>round_double x - x\<bar> \<le> \<bar>x\<bar> / 2 ^ 53 + 2 powi (least_exponent - 1)"
proof -
  define e where "e = ulp_exponent \<bar>x\<bar> 0"
  define p :: real where "p = 2 powi e"
  have ppos: "0 < p" by (simp add: p_def)
  have le0: "least_exponent \<le> 0" by (simp add: least_exponent_def)
  from ulp_exponent_spec [of "\<bar>x\<bar>" 0, OF _ le0]
  have cases: "2 ^ 52 \<le> \<bar>x\<bar> * 2 powi (- e) \<or> e = least_exponent"
    by (simp_all add: e_def)
  have inv: "(2::real) powi (- e) = 1 / p" by (simp add: p_def power_int_minus divide_inverse)
  have rd: "round_double x = of_int (round_half_even (x / p)) * p"
    by (simp add: round_double_def e_def [symmetric] p_def)
  have "\<bar>round_double x - x\<bar> = \<bar>of_int (round_half_even (x / p)) - x / p\<bar> * p"
  proof -
    have "round_double x - x = (of_int (round_half_even (x / p)) - x / p) * p"
      using ppos by (simp add: rd algebra_simps)
    then show ?thesis using ppos by (simp add: abs_mult)
  qed
  also have "\<dots> \<le> 1/2 * p"
    using round_half_even_error [of "x / p"] ppos by (intro mult_right_mono) simp_all
  finally have half: "\<bar>round_double x - x\<bar> \<le> p / 2" by simp
  have tiny: "(0::real) \<le> 2 powi (least_exponent - 1)" by simp
  from cases show ?thesis
  proof
    assume "2 ^ 52 \<le> \<bar>x\<bar> * 2 powi (- e)"
    then have "2 ^ 52 * p \<le> \<bar>x\<bar>" using ppos by (simp add: inv pos_le_divide_eq)
    then have "p / 2 \<le> \<bar>x\<bar> / 2 ^ 53" by simp
    with half have "\<bar>round_double x - x\<bar> \<le> \<bar>x\<bar> / 2 ^ 53" by (rule order_trans)
    with tiny show ?thesis by linarith
  next
    assume "e = least_exponent"
    then have "p / 2 = 2 powi (least_exponent - 1)"
      using power_int_add [of "2::real" "least_exponent - 1" 1] by (simp add: p_def)
    with half have "\<bar>round_double x - x\<bar> \<le> 2 powi (least_exponent - 1)" by simp
    moreover have "0 \<le> \<bar>x\<bar> / 2 ^ 53" by simp
    ultimately show ?thesis by linarith
  qed
qed

lemma round_double_nonzero:
  assumes "2 powi least_exponent \<le> \<bar>x\<bar>"
  shows "round_double x \<noteq> 0"
proof -
  define e where "e = ulp_exponent \<bar>x\<bar> 0"
  define p :: real where "p = 2 powi e"
  have ppos: "0 < p" by (simp add: p_def)
  have le0: "least_exponent \<le> 0" by (simp add: least_exponent_def)
  from ulp_exponent_spec [of "\<bar>x\<bar>" 0, OF _ le0]
  have cases: "2 ^ 52 \<le> \<bar>x\<bar> * 2 powi (- e) \<or> e = least_exponent"
    by (simp_all add: e_def)
  have inv: "(2::real) powi (- e) = 1 / p" by (simp add: p_def power_int_minus divide_inverse)
  have "1 \<le> \<bar>x / p\<bar>"
    using cases
  proof
    assume "2 ^ 52 \<le> \<bar>x\<bar> * 2 powi (- e)"
    then have "2 ^ 52 \<le> \<bar>x / p\<bar>" using ppos by (simp add: inv)
    moreover have "(1::real) \<le> 2 ^ 52" by simp
    ultimately show ?thesis by (rule order_trans [rotated])
  next
    assume "e = least_exponent"
    then have "p \<le> \<bar>x\<bar>" using assms by (simp add: p_def)
    then show ?thesis using ppos by (simp add: pos_le_divide_eq)
  qed
  then have one: "1 \<le> \<bar>x / p\<bar>" .
  have "round_half_even (x / p) \<noteq> 0"
  proof
    assume z: "round_half_even (x / p) = 0"
    from round_half_even_error [of "x / p"] have "\<bar>x / p\<bar> \<le> 1/2"
      unfolding z by simp
    with one show False by linarith
  qed
  then show ?thesis using ppos
    by (simp add: round_double_def e_def [symmetric] p_def [symmetric])
qed

section \<open>Properties of the smoothing filter\<close>

lemma smooth_alpha [simp]: "alpha (snd (ExponentialSmoother_smooth s v)) = alpha s"
  by (simp add: ExponentialSmoother_smooth_def Let_def split: option.split)

lemma smooth_stores_result:
  "smoothed_value (snd (ExponentialSmoother_smooth s v)) = Some (fst (ExponentialSmoother_smooth s v))"
  by (simp add: ExponentialSmoother_smooth_def Let_def split: option.split)

lemma smooth_first: "smoothed_value s = None \<Longrightarrow> fst (ExponentialSmoother_smooth s v) = v"
  by (simp add: ExponentialSmoother_smooth_def)

lemma smooth_next:
  "smoothed_value s = Some old \<Longrightarrow>
   fst (ExponentialSmoother_smooth s v)
     = float_add (float_mul (alpha s) v) (float_mul (float_sub 1 (alpha s)) old)"
  by (simp add: ExponentialSmoother_smooth_def Let_def)

lemmas float_ops = float_add_def float_sub_def float_mul_def float_truediv_def

text \<open>The double nearest to 0.15, and the filter step on 13.0, 13.0 with it.\<close>

lemma double_015:
  "round_double (15/100) = 5404319552844595 / 36028797018963968"
  by (simp add: round_double_eval)

lemma ema_015_13:
  "float_add (float_mul (5404319552844595 / 36028797018963968) 13)
             (float_mul (float_sub 1 (5404319552844595 / 36028797018963968)) 13)
     = 7318349394477055 / 562949953421312"
proof -
  have m1: "float_mul (5404319552844595 / 36028797018963968) 13
              = 8782019273372467 / 4503599627370496"
    by (simp add: float_ops round_double_eval)
  have b: "float_sub 1 (5404319552844595 / 36028797018963968)
              = 7656119366529843 / 9007199254740992"
    by (simp add: float_ops round_double_eval)
  have m2: "float_mul (7656119366529843 / 9007199254740992) 13
              = 6220596985305497 / 562949953421312"
    by (simp add: float_ops round_double_eval)
  have "float_add (8782019273372467 / 4503599627370496) (6220596985305497 / 562949953421312)
              = 7318349394477055 / 562949953421312"
    by (simp add: float_ops round_double_eval)
  then show ?thesis unfolding m1 b m2 .
qed

lemma ema_half_2_4: "float_add (float_mul (1/2) 4) (float_mul (float_sub 1 (1/2)) 2) = 3"
proof -
  have m1: "float_mul (1/2) 4 = 2" by (simp add: float_ops round_double_eval)
  have b: "float_sub 1 (1/2) = 1/2" by (simp add: float_ops round_double_eval)
  have m2: "float_mul (1/2) 2 = 1" by (simp add: float_ops round_double_eval)
  have "float_add 2 1 = 3" by (simp add: float_ops round_double_eval)
  then show ?thesis unfolding m1 b m2 .
qed

text \<open>
  Claim C7. For every smoothing factor in [0,1] and every value v, the first call of
  \<open>smooth\<close> after construction, and the first call after \<open>reset\<close> on any smoother,
  returns v itself. \<open>reset\<close> keeps the factor. The call after any call returns
  alpha * new value + (1 - alpha) * previously returned value, evaluated as the source
  evaluates it: in float arithmetic, each operation rounded. With the factor 0.15 and the
  value 13.0 given twice that is 12.999999999999998.
\<close>

theorem smooth_first_exact_then_ema:
  assumes "0 \<le> a" and "a \<le> 1"
  shows "fst (ExponentialSmoother_smooth (ExponentialSmoother_init a) v) = v
       \<and> alpha (ExponentialSmoother_reset s) = alpha s
       \<and> fst (ExponentialSmoother_smooth (ExponentialSmoother_reset s) v) = v
       \<and> fst (ExponentialSmoother_smooth
                (snd (ExponentialSmoother_smooth (ExponentialSmoother_init a) v)) w)
           = float_add (float_mul a w) (float_mul (float_sub 1 a) v)
       \<and> fst (ExponentialSmoother_smooth
                (snd (ExponentialSmoother_smooth (ExponentialSmoother_reset s) v)) w)
           = float_add (float_mul (alpha s) w) (float_mul (float_sub 1 (alpha s)) v)
       \<and> fst (ExponentialSmoother_smooth (snd (ExponentialSmoother_smooth s v)) w)
           = float_add (float_mul (alpha s) w)
               (float_mul (float_sub 1 (alpha s)) (fst (ExponentialSmoother_smooth s v)))"
proof -
  have general: "fst (ExponentialSmoother_smooth (snd (ExponentialSmoother_smooth t v)) w)
         = float_add (float_mul (alpha t) w)
               (float_mul (float_sub 1 (alpha t)) (fst (ExponentialSmoother_smooth t v)))" for t
    using smooth_next [OF smooth_stores_result, of t v w] by simp
  have first: "fst (ExponentialSmoother_smooth (ExponentialSmoother_init a) v) = v"
    by (simp add: smooth_first ExponentialSmoother_init_def)
  have keep: "alpha (ExponentialSmoother_reset s) = alpha s"
    by (simp add: ExponentialSmoother_reset_def)
  have after_reset: "fst (ExponentialSmoother_smooth (ExponentialSmoother_reset s) v) = v"
    by (simp add: smooth_first ExponentialSmoother_reset_def)
  have "alpha (ExponentialSmoother_init a) = a"
    using assms by (simp add: ExponentialSmoother_init_def)
  then have second: "fst (ExponentialSmoother_smooth
                (snd (ExponentialSmoother_smooth (ExponentialSmoother_init a) v)) w)
         = float_add (float_mul a w) (float_mul (float_sub 1 a) v)"
    using general [of "ExponentialSmoother_init a"] first by simp
  have second_reset: "fst (ExponentialSmoother_smooth
                (snd (ExponentialSmoother_smooth (ExponentialSmoother_reset s) v)) w)
           = float_add (float_mul (alpha s) w) (float_mul (float_sub 1 (alpha s)) v)"
    using general [of "ExponentialSmoother_reset s"] after_reset keep by simp
  from first keep after_reset second second_reset general show ?thesis by blast
qed

theorem smooth_first_exact_then_ema_witness:
  "(0::real) \<le> 5404319552844595 / 36028797018963968
   \<and> (5404319552844595 / 36028797018963968 :: real) \<le> 1
   \<and> fst (ExponentialSmoother_smooth
            (ExponentialSmoother_init (5404319552844595 / 36028797018963968)) 13) = 13
   \<and> fst (ExponentialSmoother_smooth
            (snd (ExponentialSmoother_smooth
                    (ExponentialSmoother_init (5404319552844595 / 36028797018963968)) 13)) 13)
       = 7318349394477055 / 562949953421312
   \<and> fst (ExponentialSmoother_smooth
            (snd (ExponentialSmoother_smooth
                    (ExponentialSmoother_reset \<lparr>alpha = 1/2, smoothed_value = Some 7\<rparr>) 2)) 4)
       = 3"
proof -
  have h0: "(0::real) \<le> 5404319552844595 / 36028797018963968"
    and h1: "(5404319552844595 / 36028797018963968 :: real) \<le> 1" by simp_all
  show ?thesis
    using smooth_first_exact_then_ema
            [OF h0 h1, where v = 13 and w = 13
               and s = "\<lparr>alpha = 1/2, smoothed_value = Some 7\<rparr>"]
          smooth_first_exact_then_ema
            [OF h0 h1, where v = 2 and w = 4
               and s = "\<lparr>alpha = 1/2, smoothed_value = Some 7\<rparr>"]
    by (simp add: ema_015_13 ema_half_2_4)
qed

section \<open>The filter stays within its inputs, up to rounding\<close>

text \<open>
  The error of one filter step. It holds for every rounding function whose error is at
  most a relative \<open>e\<close> plus an absolute \<open>h\<close>, and binary64 rounding is one.
\<close>

lemma step_abstract:
  fixes rnd :: "real \<Rightarrow> real" and e h a v p :: real
  assumes err: "\<And>x. \<bar>rnd x - x\<bar> \<le> e * \<bar>x\<bar> + h"
    and e: "0 \<le> e" "e \<le> 1/8" and h: "0 \<le> h" "h \<le> e" and a: "0 \<le> a" "a \<le> 1"
  shows "\<bar>rnd (rnd (a * v) + rnd (rnd (1 - a) * p)) - (a * v + (1 - a) * p)\<bar>
           \<le> 8 * e * max \<bar>v\<bar> \<bar>p\<bar> + 4 * h"
proof -
  define M where "M = max \<bar>v\<bar> \<bar>p\<bar>"
  define b where "b = rnd (1 - a)"
  define t1 where "t1 = rnd (a * v)"
  define t2 where "t2 = rnd (b * p)"
  define s where "s = t1 + t2"
  define c where "c = a * v + (1 - a) * p"
  have M0: "0 \<le> M" "\<bar>v\<bar> \<le> M" "\<bar>p\<bar> \<le> M" by (simp_all add: M_def)
  have eM: "0 \<le> e * M" using e M0 by simp
  have hM: "h * M \<le> e * M" using h M0 by (simp add: mult_right_mono)
  have eM8: "8 * (e * M) \<le> M"
  proof -
    have "e * M \<le> (1/8) * M" using e M0 by (intro mult_right_mono) simp_all
    then show ?thesis by simp
  qed
  have eh: "8 * (e * h) \<le> h"
  proof -
    have "e * h \<le> (1/8) * h" using e h by (intro mult_right_mono) simp_all
    then show ?thesis by simp
  qed
  have a1: "\<bar>1 - a\<bar> \<le> 1" using a by simp
  have db: "\<bar>b - (1 - a)\<bar> \<le> e + h"
  proof -
    have "e * \<bar>1 - a\<bar> \<le> e * 1" using e a1 by (intro mult_left_mono) simp_all
    with err [of "1 - a"] show ?thesis by (simp add: b_def)
  qed
  have babs: "\<bar>b\<bar> \<le> 2" using db a1 e h by linarith
  have av: "\<bar>a * v\<bar> \<le> M"
  proof -
    have "\<bar>a * v\<bar> = a * \<bar>v\<bar>" using a by (simp add: abs_mult)
    also have "\<dots> \<le> 1 * M" using a M0 by (intro mult_mono) simp_all
    finally show ?thesis by simp
  qed
  have d1: "\<bar>t1 - a * v\<bar> \<le> e * M + h"
  proof -
    have "e * \<bar>a * v\<bar> \<le> e * M" using e av by (intro mult_left_mono) simp_all
    with err [of "a * v"] show ?thesis by (simp add: t1_def)
  qed
  have bp: "\<bar>b * p\<bar> \<le> 2 * M"
  proof -
    have "\<bar>b * p\<bar> = \<bar>b\<bar> * \<bar>p\<bar>" by (simp add: abs_mult)
    also have "\<dots> \<le> 2 * M" using babs M0 by (intro mult_mono) simp_all
    finally show ?thesis .
  qed
  have d2: "\<bar>t2 - b * p\<bar> \<le> 2 * (e * M) + h"
  proof -
    have "e * \<bar>b * p\<bar> \<le> e * (2 * M)" using e bp by (intro mult_left_mono) simp_all
    with err [of "b * p"] show ?thesis by (simp add: t2_def)
  qed
  have d3: "\<bar>b * p - (1 - a) * p\<bar> \<le> 2 * (e * M)"
  proof -
    have "\<bar>b * p - (1 - a) * p\<bar> = \<bar>b - (1 - a)\<bar> * \<bar>p\<bar>"
      by (simp add: abs_mult [symmetric] algebra_simps)
    also have "\<dots> \<le> (e + h) * M" using db M0 e h by (intro mult_mono) simp_all
    also have "\<dots> = e * M + h * M" by (simp add: algebra_simps)
    finally show ?thesis using hM by linarith
  qed
  have ds: "\<bar>s - c\<bar> \<le> 5 * (e * M) + 2 * h"
  proof -
    have "s - c = (t1 - a * v) + (t2 - b * p) + (b * p - (1 - a) * p)"
      by (simp add: s_def c_def)
    then show ?thesis using d1 d2 d3 by linarith
  qed
  have cM: "\<bar>c\<bar> \<le> M"
  proof -
    have "\<bar>(1 - a) * p\<bar> = (1 - a) * \<bar>p\<bar>" using a by (simp add: abs_mult)
    moreover have "(1 - a) * \<bar>p\<bar> \<le> (1 - a) * M" using a M0 by (intro mult_left_mono) simp_all
    moreover have "\<bar>a * v\<bar> = a * \<bar>v\<bar>" using a by (simp add: abs_mult)
    moreover have "a * \<bar>v\<bar> \<le> a * M" using a M0 by (intro mult_left_mono) simp_all
    moreover have "a * M + (1 - a) * M = M" by (simp add: algebra_simps)
    ultimately show ?thesis unfolding c_def by linarith
  qed
  have sM: "\<bar>s\<bar> \<le> 2 * M + 2 * h" using ds cM eM8 eM by linarith
  have dr: "\<bar>rnd s - s\<bar> \<le> 2 * (e * M) + 2 * h"
  proof -
    have "e * \<bar>s\<bar> \<le> e * (2 * M + 2 * h)" using e sM by (intro mult_left_mono) simp_all
    also have "\<dots> = 2 * (e * M) + 2 * (e * h)" by (simp add: algebra_simps)
    finally have "e * \<bar>s\<bar> \<le> 2 * (e * M) + 2 * (e * h)" .
    with err [of s] eh h show ?thesis by linarith
  qed
  have "\<bar>rnd s - c\<bar> \<le> 8 * (e * M) + 4 * h" using dr ds eM by linarith
  then show ?thesis
    by (simp add: s_def t1_def t2_def b_def c_def M_def mult.assoc)
qed

lemma half_ulp_small: "(2::real) powi (least_exponent - 1) \<le> 1 / 2 ^ 53"
proof -
  have "(2::real) powi (least_exponent - 1) \<le> 2 powi (- 53)"
    by (rule power_int_increasing) (simp_all add: least_exponent_def)
  also have "\<dots> = 1 / 2 ^ 53" by (simp add: power_int_minus)
  finally show ?thesis .
qed

lemma four_half_ulps: "4 * (2::real) powi (least_exponent - 1) = 2 powi (least_exponent + 1)"
proof -
  have "least_exponent + 1 = least_exponent - 1 + 2" by simp
  then have "(2::real) powi (least_exponent + 1) = 2 powi (least_exponent - 1 + 2)"
    by (rule arg_cong)
  also have "\<dots> = 2 powi (least_exponent - 1) * 2 powi 2"
    by (rule power_int_add) simp
  also have "\<dots> = 4 * 2 powi (least_exponent - 1)" by simp
  finally show ?thesis by simp
qed

lemma ema_step_bound:
  assumes "0 \<le> a" and "a \<le> 1"
  shows "\<bar>float_add (float_mul a v) (float_mul (float_sub 1 a) p) - (a * v + (1 - a) * p)\<bar>
           \<le> max \<bar>v\<bar> \<bar>p\<bar> / 2 ^ 50 + 2 powi (least_exponent + 1)"
proof -
  have err: "\<bar>round_double x - x\<bar> \<le> 1 / 2 ^ 53 * \<bar>x\<bar> + 2 powi (least_exponent - 1)" for x
    using round_double_error [of x] by simp
  have "\<bar>round_double (round_double (a * v) + round_double (round_double (1 - a) * p))
          - (a * v + (1 - a) * p)\<bar>
        \<le> 8 * (1 / 2 ^ 53) * max \<bar>v\<bar> \<bar>p\<bar> + 4 * 2 powi (least_exponent - 1)"
    by (rule step_abstract [OF err _ _ _ half_ulp_small assms]) simp_all
  then show ?thesis
    unfolding four_half_ulps float_ops by simp
qed


lemma convex_between:
  fixes a v x lo hi :: real
  assumes a: "0 \<le> a" "a \<le> 1" and v: "lo \<le> v" "v \<le> hi" and x: "lo \<le> x" "x \<le> hi"
  shows "lo \<le> a * v + (1 - a) * x" and "a * v + (1 - a) * x \<le> hi"
proof -
  have "a * lo + (1 - a) * lo \<le> a * v + (1 - a) * x"
    using a v x by (intro add_mono mult_left_mono) auto
  then show "lo \<le> a * v + (1 - a) * x" by (simp add: algebra_simps)
  have "a * v + (1 - a) * x \<le> a * hi + (1 - a) * hi"
    using a v x by (intro add_mono mult_left_mono) auto
  then show "a * v + (1 - a) * x \<le> hi" by (simp add: algebra_simps)
qed

lemma max_abs_append: "max_abs (vs @ [v]) = max \<bar>v\<bar> (max_abs vs)"
  by (simp add: max_abs_def)

lemma max_abs_nonneg: "0 \<le> max_abs vs"
  by (induction vs rule: rev_induct) (simp_all add: max_abs_append, simp add: max_abs_def)

lemma max_abs_ge: "x \<in> set vs \<Longrightarrow> \<bar>x\<bar> \<le> max_abs vs"
  by (induction vs rule: rev_induct) (auto simp add: max_abs_append)

lemma min_max_within_max_abs:
  assumes "vs \<noteq> []"
  shows "- max_abs vs \<le> Min (set vs)" and "Max (set vs) \<le> max_abs vs"
proof -
  have "Min (set vs) \<in> set vs" "Max (set vs) \<in> set vs"
    using assms by (simp_all add: Min_in Max_in)
  then have "\<bar>Min (set vs)\<bar> \<le> max_abs vs" "\<bar>Max (set vs)\<bar> \<le> max_abs vs"
    by (simp_all add: max_abs_ge)
  then show "- max_abs vs \<le> Min (set vs)" and "Max (set vs) \<le> max_abs vs"
    by linarith+
qed

lemma rounding_slack_single: "rounding_slack [v] = 0"
  by (simp add: rounding_slack_def)

lemma rounding_slack_nonneg: "0 \<le> rounding_slack vs"
proof -
  have "(1::real) \<le> (1 + 1 / 2 ^ 50) ^ (length vs - 1)"
    by (rule one_le_power) simp
  moreover have "0 \<le> max_abs vs + 2 powi (least_exponent + 51)"
    using max_abs_nonneg [of vs] by (simp add: add_nonneg_nonneg)
  ultimately show ?thesis
    unfolding rounding_slack_def by (intro mult_nonneg_nonneg) simp_all
qed

lemma least_ulps_scaled:
  "(2::real) powi (least_exponent + 51) / 2 ^ 50 = 2 powi (least_exponent + 1)"
proof -
  have "least_exponent + 51 = least_exponent + 1 + 50" by simp
  then have "(2::real) powi (least_exponent + 51) = 2 powi (least_exponent + 1 + 50)"
    by (rule arg_cong)
  also have "\<dots> = 2 powi (least_exponent + 1) * 2 powi 50"
    by (rule power_int_add) simp
  finally show ?thesis by simp
qed

lemma slack_algebra:
  fixes G W k :: real
  shows "(G - 1) * W * (1 + k) + W * k = (G * (1 + k) - 1) * W"
  by (simp add: algebra_simps)

lemma rounding_slack_step:
  assumes "vs \<noteq> []"
  shows "rounding_slack vs + rounding_slack vs / 2 ^ 50 + max_abs (vs @ [v]) / 2 ^ 50
           + 2 powi (least_exponent + 1)
         \<le> rounding_slack (vs @ [v])"
proof -
  define k :: real where "k = 1 / 2 ^ 50"
  define G :: real where "G = (1 + k) ^ (length vs - 1)"
  define t :: real where "t = 2 powi (least_exponent + 51)"
  define W where "W = max_abs vs + t"
  define W' where "W' = max_abs (vs @ [v]) + t"
  have k0: "0 \<le> k" by (simp add: k_def)
  have G1: "1 \<le> G" unfolding G_def using k0 by (intro one_le_power) simp
  have t0: "0 \<le> t" by (simp add: t_def)
  have WW: "W \<le> W'" by (simp add: W_def W'_def max_abs_append)
  have len: "length (vs @ [v]) - 1 = Suc (length vs - 1)" using assms by (cases vs) simp_all
  have E: "rounding_slack vs = (G - 1) * W"
    by (simp add: rounding_slack_def G_def W_def t_def k_def)
  have E': "rounding_slack (vs @ [v]) = (G * (1 + k) - 1) * W'"
    unfolding rounding_slack_def len by (simp add: G_def W'_def t_def k_def)
  have le: "(G - 1) * W \<le> (G - 1) * W'" using G1 WW by (intro mult_left_mono) simp_all
  have tk: "2 powi (least_exponent + 1) = t * k"
    using least_ulps_scaled by (simp add: t_def k_def)
  have "rounding_slack vs + rounding_slack vs / 2 ^ 50 + max_abs (vs @ [v]) / 2 ^ 50
           + 2 powi (least_exponent + 1)
        = (G - 1) * W + (G - 1) * W * k + max_abs (vs @ [v]) * k + t * k"
    unfolding E tk by (simp add: k_def)
  also have "\<dots> = (G - 1) * W * (1 + k) + W' * k"
    by (simp add: W'_def algebra_simps)
  also have "\<dots> \<le> (G - 1) * W' * (1 + k) + W' * k"
    using le k0 by (intro add_right_mono mult_right_mono) simp_all
  also have "\<dots> = (G * (1 + k) - 1) * W'"
    by (rule slack_algebra)
  finally show ?thesis unfolding E' .
qed

lemma smoother_inv_init: "smoother_inv (ExponentialSmoother_init a) []"
  by (simp add: smoother_inv_def ExponentialSmoother_init_def)

lemma smoother_inv_smooth:
  assumes "smoother_inv s vs"
  shows "smoother_inv (snd (ExponentialSmoother_smooth s v)) (vs @ [v])"
proof (cases "smoothed_value s")
  case None
  with assms show ?thesis
    by (simp add: smoother_inv_def ExponentialSmoother_smooth_def rounding_slack_single)
next
  case (Some p)
  with assms have ne: "vs \<noteq> []"
    and lo: "Min (set vs) - rounding_slack vs \<le> p"
    and hi: "p \<le> Max (set vs) + rounding_slack vs"
    and a: "0 \<le> alpha s" "alpha s \<le> 1"
    by (simp_all add: smoother_inv_def)
  define r where "r = float_add (float_mul (alpha s) v) (float_mul (float_sub 1 (alpha s)) p)"
  define c where "c = alpha s * v + (1 - alpha s) * p"
  define mx where "mx = max \<bar>v\<bar> \<bar>p\<bar>"
  define E where "E = rounding_slack vs"
  define E' where "E' = rounding_slack (vs @ [v])"
  define T :: real where "T = 2 powi (least_exponent + 1)"
  have E0: "0 \<le> E" unfolding E_def by (rule rounding_slack_nonneg)
  have rc: "\<bar>r - c\<bar> \<le> mx / 2 ^ 50 + T"
    unfolding r_def c_def mx_def T_def by (rule ema_step_bound [OF a])
  have cb: "min v p \<le> c" "c \<le> max v p"
    using convex_between [OF a, of "min v p" v "max v p" p] by (simp_all add: c_def)
  have mm: "Min (set (vs @ [v])) = min v (Min (set vs))"
           "Max (set (vs @ [v])) = max v (Max (set vs))"
    using ne by simp_all
  have M: "- max_abs vs \<le> Min (set vs)" "Max (set vs) \<le> max_abs vs"
    using min_max_within_max_abs [OF ne] by simp_all
  have mxb: "mx \<le> max_abs (vs @ [v]) + E"
    using lo hi M E0 unfolding mx_def max_abs_append E_def by linarith
  have step: "E + E / 2 ^ 50 + max_abs (vs @ [v]) / 2 ^ 50 + T \<le> E'"
    unfolding E_def E'_def T_def by (rule rounding_slack_step [OF ne])
  have d: "mx / 2 ^ 50 \<le> max_abs (vs @ [v]) / 2 ^ 50 + E / 2 ^ 50"
    using mxb by (simp add: field_simps)
  have lower: "Min (set (vs @ [v])) - E' \<le> r"
    using rc cb(1) lo d step E0 unfolding mm E_def [symmetric] by linarith
  have upper: "r \<le> Max (set (vs @ [v])) + E'"
    using rc cb(2) hi d step E0 unfolding mm E_def [symmetric] by linarith
  have "fst (ExponentialSmoother_smooth s v) = r"
    using Some by (simp add: smooth_next r_def)
  with lower upper a show ?thesis
    by (simp add: smoother_inv_def smooth_stores_result E'_def)
qed

lemma smoother_inv_step:
  "smoother_inv s vs \<Longrightarrow> smoother_inv (smoother_apply c s) (seen_apply c vs)"
proof (cases c)
  case (Smooth v)
  assume "smoother_inv s vs"
  with Smooth show ?thesis by (simp add: smoother_inv_smooth)
next
  case (SetAlpha a)
  assume "smoother_inv s vs"
  with SetAlpha show ?thesis
    by (simp add: smoother_inv_def ExponentialSmoother_set_alpha_def)
next
  case Reset
  assume "smoother_inv s vs"
  with Reset show ?thesis
    by (simp add: smoother_inv_def ExponentialSmoother_reset_def)
qed

lemma smoother_inv_fold:
  "smoother_inv s vs \<Longrightarrow> smoother_inv (fold smoother_apply cs s) (fold seen_apply cs vs)"
  by (induction cs arbitrary: s vs) (simp_all add: smoother_inv_step)

text \<open>
  Claim C9 (as stated, it fails). A smoother with the factor 0.15 that is given 13.0
  twice returns 12.999999999999998 the second time, which is below 13.0, the least of
  its inputs.
\<close>

theorem smooth_below_minimum:
  "fst (ExponentialSmoother_smooth
          (smoother_run (ExponentialSmoother_init (round_double (15/100))) [Smooth 13]) 13)
     < Min (set (inputs_seen [Smooth 13] @ [13]))"
  unfolding double_015
  by (simp add: smoother_run_def inputs_seen_def ExponentialSmoother_init_def
        ExponentialSmoother_smooth_def ema_015_13 Let_def)

text \<open>
  Claim C9 (amended). Start from a freshly constructed smoother and apply any sequence of
  calls of \<open>smooth\<close>, \<open>set_alpha\<close> and \<open>reset\<close>. The stored factor then lies in
  [0,1], and the value returned by the next call of \<open>smooth\<close> lies between the
  minimum and the maximum of the inputs given since construction or the last reset, that
  call's input included, up to the rounding slack of those inputs:
  ((1 + 2^-50)^(n-1) - 1) * (m + 2^-1023) for n inputs of magnitude at most m. For a
  first input the slack is zero, so the value returned is the input.
\<close>

theorem smooth_between_min_max:
  "0 \<le> alpha (smoother_run (ExponentialSmoother_init a) calls)
   \<and> alpha (smoother_run (ExponentialSmoother_init a) calls) \<le> 1
   \<and> Min (set (inputs_seen calls @ [v])) - rounding_slack (inputs_seen calls @ [v])
        \<le> fst (ExponentialSmoother_smooth (smoother_run (ExponentialSmoother_init a) calls) v)
   \<and> fst (ExponentialSmoother_smooth (smoother_run (ExponentialSmoother_init a) calls) v)
        \<le> Max (set (inputs_seen calls @ [v])) + rounding_slack (inputs_seen calls @ [v])
   \<and> rounding_slack [v] = 0"
proof -
  let ?s = "smoother_run (ExponentialSmoother_init a) calls"
  have inv: "smoother_inv ?s (inputs_seen calls)"
    unfolding smoother_run_def inputs_seen_def
    by (rule smoother_inv_fold [OF smoother_inv_init])
  have "smoother_inv (snd (ExponentialSmoother_smooth ?s v)) (inputs_seen calls @ [v])"
    by (rule smoother_inv_smooth [OF inv])
  then show ?thesis
    using inv by (simp add: smoother_inv_def smooth_stores_result rounding_slack_single)
qed

section \<open>Velocity limiting in the transform smoother\<close>

text \<open>
  \<open>smooth\<close> stores the value it returns before the limiting block reads \<open>prev\<close>, so
  the delta the block computes is always zero: with a non-negative limit the block never
  fires and \<open>smooth_transform\<close> is the plain exponential filter on each axis.
\<close>

lemma round_double_150: "round_double 150 = 150"
  by (simp add: round_double_eval)

lemma velocity_limit_dead:
  "0 \<le> m \<Longrightarrow> velocity_limit m (fst (ExponentialSmoother_smooth s v)) (snd (ExponentialSmoother_smooth s v))
     = ExponentialSmoother_smooth s v"
  by (simp add: velocity_limit_def smooth_stores_result float_sub_def round_double_zero)

lemma smooth_transform_plain:
  "0 \<le> TransformSmoother.max_shift_per_frame t \<Longrightarrow>
   TransformSmoother_smooth_transform t tx ty tz =
     ((fst (ExponentialSmoother_smooth (x_smoother t) tx),
       fst (ExponentialSmoother_smooth (y_smoother t) ty),
       fst (ExponentialSmoother_smooth (zoom_smoother t) tz)),
      t\<lparr>x_smoother := snd (ExponentialSmoother_smooth (x_smoother t) tx),
        y_smoother := snd (ExponentialSmoother_smooth (y_smoother t) ty),
        zoom_smoother := snd (ExponentialSmoother_smooth (zoom_smoother t) tz)\<rparr>)"
  by (simp add: TransformSmoother_smooth_transform_def split_def velocity_limit_dead Let_def)

text \<open>
  Claim C1 (evaluation of the code where the claim fails). With the default factor 0.15 and
  the default limit of 50 pixels, the targets x = 0 and then x = 1000 give the returned
  values 0 and then 150: successive outputs differ by 150, three times the limit.
\<close>

theorem smooth_transform_exceeds_max_shift:
  "fst (fst (TransformSmoother_smooth_transform (TransformSmoother_init (15/100) 50) 0 0 1)) = 0
   \<and> fst (fst (TransformSmoother_smooth_transform
        (snd (TransformSmoother_smooth_transform (TransformSmoother_init (15/100) 50) 0 0 1))
        1000 0 1)) = 150
   \<and> \<bar>150 - (0::real)\<bar>
        > of_int (TransformSmoother.max_shift_per_frame (TransformSmoother_init (15/100) 50))"
  by (simp add: smooth_transform_plain TransformSmoother_init_def ExponentialSmoother_init_def
        ExponentialSmoother_smooth_def float_add_def float_mul_def round_double_zero
        round_double_150)

section \<open>Tracking state machine\<close>

lemma update_none_fields:
  "memory_duration (snd (TrackingState_update s None t)) = memory_duration s"
  "last_bbox (snd (TrackingState_update s None t)) = last_bbox s"
  "last_detection_time (snd (TrackingState_update s None t)) = last_detection_time s"
  by (simp_all add: TrackingState_update_def Let_def split: option.split)

lemma updates_without_detection_fields:
  "memory_duration (updates_without_detection s ts) = memory_duration s
   \<and> last_bbox (updates_without_detection s ts) = last_bbox s
   \<and> last_detection_time (updates_without_detection s ts) = last_detection_time s"
  unfolding updates_without_detection_def
  by (induction ts arbitrary: s) (simp_all add: update_none_fields)

lemma update_none_status:
  "status (snd (TrackingState_update s None t)) =
     (case last_detection_time s of
        None \<Rightarrow> LOST_LONG
      | Some t0 \<Rightarrow> if t - t0 < memory_duration s then LOST_RECENT else LOST_LONG)"
  "fst (TrackingState_update s None t) = status (snd (TrackingState_update s None t))"
  by (simp_all add: TrackingState_update_def Let_def split: option.split)

lemma never_detected_status:
  "last_detection_time s = None \<Longrightarrow> status s = LOST_LONG \<Longrightarrow>
   status (updates_without_detection s ts) = LOST_LONG"
  unfolding updates_without_detection_def
proof (induction ts arbitrary: s)
  case Nil
  then show ?case by simp
next
  case (Cons t ts)
  have "last_detection_time (snd (TrackingState_update s None t)) = None"
    using Cons.prems by (simp add: update_none_fields)
  moreover have "status (snd (TrackingState_update s None t)) = LOST_LONG"
    using Cons.prems by (simp add: update_none_status)
  ultimately show ?case using Cons.IH by simp
qed

text \<open>
  Claim C3. Let a tracking state (fresh or not) receive a detection at time 0 and then
  updates without a detection at any timestamps. The update at time 0 returns Tracking
  and exposes the detection's bbox. Every later update without a detection, at time t,
  returns LostRecent when t < memory\_duration and LostLong when t \<ge> memory\_duration,
  and \<open>get_target_bbox\<close> after it returns the original bbox in the first case and
  nothing in the second. A state that never received a detection exposes no bbox.
\<close>

theorem tracking_after_single_detection:
  "fst (TrackingState_update s0 (Some d) 0) = TRACKING
   \<and> TrackingState_get_target_bbox (snd (TrackingState_update s0 (Some d) 0)) = Some (bbox d)
   \<and> fst (TrackingState_update
            (updates_without_detection (snd (TrackingState_update s0 (Some d) 0)) ts) None t)
       = (if t < memory_duration s0 then LOST_RECENT else LOST_LONG)
   \<and> TrackingState_get_target_bbox (snd (TrackingState_update
            (updates_without_detection (snd (TrackingState_update s0 (Some d) 0)) ts) None t))
       = (if t < memory_duration s0 then Some (bbox d) else None)
   \<and> TrackingState_get_target_bbox (TrackingState_init md) = None
   \<and> TrackingState_get_target_bbox (updates_without_detection (TrackingState_init md) ts) = None"
proof -
  let ?s1 = "snd (TrackingState_update s0 (Some d) 0)"
  let ?s = "updates_without_detection ?s1 ts"
  have s1: "memory_duration ?s1 = memory_duration s0" "last_bbox ?s1 = Some (bbox d)"
    "last_detection_time ?s1 = Some 0" "status ?s1 = TRACKING"
    "fst (TrackingState_update s0 (Some d) 0) = TRACKING"
    by (simp_all add: TrackingState_update_def)
  have s: "memory_duration ?s = memory_duration s0" "last_bbox ?s = Some (bbox d)"
    "last_detection_time ?s = Some 0"
    using updates_without_detection_fields [of ?s1 ts] s1 by simp_all
  have st: "status (snd (TrackingState_update ?s None t))
            = (if t < memory_duration s0 then LOST_RECENT else LOST_LONG)"
    by (simp add: update_none_status s)
  have bb: "last_bbox (snd (TrackingState_update ?s None t)) = Some (bbox d)"
    by (simp add: update_none_fields s)
  have c1: "TrackingState_get_target_bbox ?s1 = Some (bbox d)"
    by (simp add: TrackingState_get_target_bbox_def s1)
  have c2: "fst (TrackingState_update ?s None t)
            = (if t < memory_duration s0 then LOST_RECENT else LOST_LONG)"
    using st by (simp add: update_none_status(2))
  have c3: "TrackingState_get_target_bbox (snd (TrackingState_update ?s None t))
            = (if t < memory_duration s0 then Some (bbox d) else None)"
    by (simp add: TrackingState_get_target_bbox_def st bb)
  have c4: "TrackingState_get_target_bbox (TrackingState_init md) = None"
    by (simp add: TrackingState_get_target_bbox_def TrackingState_init_def)
  have "status (updates_without_detection (TrackingState_init md) ts) = LOST_LONG"
    by (rule never_detected_status) (simp_all add: TrackingState_init_def)
  then have c5: "TrackingState_get_target_bbox
                   (updates_without_detection (TrackingState_init md) ts) = None"
    by (simp add: TrackingState_get_target_bbox_def)
  from s1(5) c1 c2 c3 c4 c5 show ?thesis by blast
qed

section \<open>Read failures in the pipeline loop\<close>

lemma loop_not_running: "\<not> running c \<Longrightarrow> CameraController_process_loop c ts = (c, ts)"
  by (cases ts) simp_all

lemma loop_append:
  "snd (CameraController_process_loop c xs) = [] \<Longrightarrow>
   CameraController_process_loop c (xs @ ys)
     = CameraController_process_loop (fst (CameraController_process_loop c xs)) ys"
  by (induction xs arbitrary: c) (simp_all split: if_splits)

lemma loop_tolerated_failures:
  "running c \<Longrightarrow> frame_read_failures c + int n \<le> 3 \<Longrightarrow>
   CameraController_process_loop c (replicate n ReadNone)
     = (c\<lparr>frame_read_failures := frame_read_failures c + int n\<rparr>, [])"
proof (induction n arbitrary: c)
  case 0
  then show ?case by simp
next
  case (Suc n)
  let ?c1 = "c\<lparr>frame_read_failures := frame_read_failures c + 1\<rparr>"
  have tick: "CameraController_tick c ReadNone = ?c1"
    using Suc.prems by (simp add: Let_def)
  have "CameraController_process_loop ?c1 (replicate n ReadNone)
          = (?c1\<lparr>frame_read_failures := frame_read_failures ?c1 + int n\<rparr>, [])"
    using Suc.prems by (intro Suc.IH) simp_all
  then show ?case using Suc.prems tick by (simp add: add.assoc)
qed

text \<open>
  From a running loop whose counter is zero (a fresh controller, or right after a
  successful read) up to three consecutive failed reads are tolerated and the fourth stops
  the loop; a successful read in between starts the count again.
\<close>

lemma failures_counted_from_zero:
  assumes "running c" and "frame_read_failures c = 0"
  shows "frame_read_failures (CameraController_tick c' ReadNone) = frame_read_failures c' + 1
       \<and> frame_read_failures (CameraController_tick c' (ReadFrame r)) = 0
       \<and> (n \<le> 3 \<longrightarrow>
            CameraController_process_loop c (replicate n ReadNone)
              = (c\<lparr>frame_read_failures := int n\<rparr>, []))
       \<and> CameraController_process_loop c (replicate 4 ReadNone @ rest)
              = (c\<lparr>frame_read_failures := 4,
                    error_message := Some ''Camera connection lost'',
                    running := False\<rparr>, rest)
       \<and> (n \<le> 3 \<and> m \<le> 3 \<longrightarrow>
            CameraController_process_loop c
                (replicate n ReadNone @ [ReadFrame None] @ replicate m ReadNone)
              = (c\<lparr>frame_read_failures := int m\<rparr>, []))"
proof -
  have a: "frame_read_failures (CameraController_tick c' ReadNone) = frame_read_failures c' + 1"
    by (simp add: Let_def)
  have b: "frame_read_failures (CameraController_tick c' (ReadFrame r)) = 0"
    by (cases r) simp_all
  have tol: "CameraController_process_loop c (replicate k ReadNone)
              = (c\<lparr>frame_read_failures := int k\<rparr>, [])" if "k \<le> 3" for k
    using loop_tolerated_failures [of c k] assms that by simp
  let ?c3 = "c\<lparr>frame_read_failures := 3\<rparr>"
  have "CameraController_process_loop c (replicate 3 ReadNone @ (ReadNone # rest))
          = CameraController_process_loop ?c3 (ReadNone # rest)"
    using loop_append [of c "replicate 3 ReadNone" "ReadNone # rest"] tol [of 3] by simp
  also have "\<dots> = (c\<lparr>frame_read_failures := 4,
                    error_message := Some ''Camera connection lost'',
                    running := False\<rparr>, rest)"
    using assms by (simp add: Let_def loop_not_running)
  finally have d: "CameraController_process_loop c (replicate 4 ReadNone @ rest)
              = (c\<lparr>frame_read_failures := 4,
                    error_message := Some ''Camera connection lost'',
                    running := False\<rparr>, rest)"
    by (simp add: numeral_eq_Suc replicate_append_same)
  have e: "CameraController_process_loop c
                (replicate n ReadNone @ [ReadFrame None] @ replicate m ReadNone)
              = (c\<lparr>frame_read_failures := int m\<rparr>, [])" if "n \<le> 3" "m \<le> 3"
  proof -
    let ?cn = "c\<lparr>frame_read_failures := int n\<rparr>"
    have "CameraController_process_loop c
                (replicate n ReadNone @ [ReadFrame None] @ replicate m ReadNone)
          = CameraController_process_loop ?cn (ReadFrame None # replicate m ReadNone)"
      using loop_append [of c "replicate n ReadNone"] tol [OF that(1)] by simp
    also have "\<dots> = CameraController_process_loop (c\<lparr>frame_read_failures := 0\<rparr>)
                        (replicate m ReadNone)"
      using assms by simp
    also have "\<dots> = (c\<lparr>frame_read_failures := int m\<rparr>, [])"
      using loop_tolerated_failures [of "c\<lparr>frame_read_failures := 0\<rparr>" m] assms that by simp
    finally show ?thesis .
  qed
  from a b tol [of n] d e show ?thesis by blast
qed

text \<open>
  Claim C2 (evaluation of the code where the claim fails). The failure counter is set to
  zero only by the constructor and by a successful read. After a run that ended with
  "Camera connection lost" the counter is 4; \<open>stop\<close> returns at once because the loop
  has already cleared \<open>running\<close>, and \<open>start\<close> begins the next run with the counter
  still at 4. In that run the first failed read raises the counter to 5 and stops the
  loop: no failed read is tolerated, and the later reads are never made.
\<close>

theorem restart_stops_on_first_failed_read:
  "after_lost_connection
     = \<lparr>running = False, frame_read_failures = 4,
        error_message = Some ''Camera connection lost''\<rparr>
   \<and> CameraController_stop after_lost_connection = after_lost_connection
   \<and> CameraController_start (CameraController_stop after_lost_connection) Started
     = (True, \<lparr>running = True, frame_read_failures = 4,
               error_message = Some ''Camera connection lost''\<rparr>)
   \<and> CameraController_process_loop
       (snd (CameraController_start (CameraController_stop after_lost_connection) Started))
       [ReadNone, ReadFrame None, ReadFrame None]
     = (\<lparr>running = False, frame_read_failures = 5,
         error_message = Some ''Camera connection lost''\<rparr>,
        [ReadFrame None, ReadFrame None])"
  by (simp add: after_lost_connection_def CameraController_init_def CameraController_stop_def
        Let_def)

section \<open>Zoom calculation\<close>

lemma frame_height_in_range: "(2::real) ^ 62 \<le> 2 powi (- least_exponent)"
proof -
  have "(2::real) powi 62 \<le> 2 powi (- least_exponent)"
    by (rule power_int_increasing) (simp_all add: least_exponent_def)
  then show ?thesis by simp
qed

lemma face_height_in_range: "(2::real) ^ 62 \<le> 2 powi greatest_exponent"
proof -
  have "(2::real) powi 62 \<le> 2 powi greatest_exponent"
    by (rule power_int_increasing) (simp_all add: greatest_exponent_def)
  then show ?thesis by simp
qed

lemma ratio_nonzero:
  assumes "0 < h" and "fh \<noteq> 0" and "\<bar>real_of_int fh\<bar> \<le> 2 powi (- least_exponent)"
  shows "float_truediv (of_int h) (of_int fh) \<noteq> 0"
proof -
  define B :: real where "B = 2 powi (- least_exponent)"
  have Bpos: "0 < B" by (simp add: B_def)
  have inv: "(2::real) powi least_exponent = 1 / B"
    by (simp add: B_def power_int_minus divide_inverse)
  have fpos: "0 < \<bar>real_of_int fh\<bar>" using assms(2) by simp
  have "1 \<le> real_of_int h" using assms(1) by simp
  then have "1 / \<bar>real_of_int fh\<bar> \<le> real_of_int h / \<bar>real_of_int fh\<bar>"
    using fpos by (simp add: divide_right_mono)
  moreover have "1 / B \<le> 1 / \<bar>real_of_int fh\<bar>"
    using assms(3) fpos Bpos unfolding B_def [symmetric] by (simp add: frac_le)
  ultimately have "1 / B \<le> real_of_int h / \<bar>real_of_int fh\<bar>" by linarith
  also have "\<dots> = \<bar>real_of_int h / real_of_int fh\<bar>" using assms(1) by simp
  finally have "2 powi least_exponent \<le> \<bar>real_of_int h / real_of_int fh\<bar>"
    unfolding inv .
  then show ?thesis
    unfolding float_truediv_def by (rule round_double_nonzero)
qed

lemma calculate_zoom_positive:
  "0 < h \<Longrightarrow> fh \<noteq> 0 \<Longrightarrow> float_truediv (of_int h) (of_int fh) \<noteq> 0 \<Longrightarrow>
   FrameProcessor_calculate_zoom cfg h fh
     = Inr (max (min_zoom cfg) (min (max_zoom cfg) (target_zoom_unclamped cfg h fh)))"
  by (simp add: FrameProcessor_calculate_zoom_def)

lemma nonempty_frame_rows: "ndarray_size f \<noteq> 0 \<Longrightarrow> 0 < rows f"
  by (auto simp add: ndarray_size_def)

lemma double_04: "round_double (4/10) = 3602879701896397 / 9007199254740992"
  by (simp add: round_double_eval)

lemma double_18: "round_double (18/10) = 8106479329266893 / 4503599627370496"
  by (simp add: round_double_eval)

lemma zoom_160_720:
  "float_truediv (3602879701896397 / 9007199254740992) (float_truediv 160 720)
     = 4053239664633447 / 2251799813685248"
proof -
  have q: "float_truediv 160 720 = 2001599834386887 / 9007199254740992"
    by (simp add: float_ops round_double_eval)
  have "float_truediv (3602879701896397 / 9007199254740992)
          (2001599834386887 / 9007199254740992) = 4053239664633447 / 2251799813685248"
    by (simp add: float_ops round_double_eval)
  then show ?thesis unfolding q .
qed

lemma zoom_176_480:
  "float_mul 480 (825659931684591 / 2251799813685248) = 176"
  "float_truediv (825659931684591 / 2251799813685248) (float_truediv 176 480)
     = 4503599627370497 / 4503599627370496"
proof -
  show "float_mul 480 (825659931684591 / 2251799813685248) = 176"
    by (simp add: float_ops round_double_eval)
  have q: "float_truediv 176 480 = 6605279453476727 / 18014398509481984"
    by (simp add: float_ops round_double_eval)
  have "float_truediv (825659931684591 / 2251799813685248)
          (6605279453476727 / 18014398509481984) = 4503599627370497 / 4503599627370496"
    by (simp add: float_ops round_double_eval)
  then show "float_truediv (825659931684591 / 2251799813685248) (float_truediv 176 480)
     = 4503599627370497 / 4503599627370496" unfolding q .
qed

lemma round_double_1: "round_double 1 = 1"
  by (simp add: round_double_eval)

lemma zoom_default_160_720:
  "target_zoom_unclamped
        \<lparr>target_face_ratio = round_double (4/10), min_zoom = 1, max_zoom = 3,
         smoothing_factor = sf, max_shift_per_frame = ms\<rparr> 160 720
       = 4053239664633447 / 2251799813685248"
proof -
  have ints: "real_of_int 160 = 160" "real_of_int 720 = 720" by simp_all
  show ?thesis
    unfolding target_zoom_unclamped_def ints double_04 by (simp add: zoom_160_720)
qed

lemma zoom_third_176_480:
  "target_zoom_unclamped
     \<lparr>target_face_ratio = 825659931684591 / 2251799813685248, min_zoom = 1, max_zoom = 3,
      smoothing_factor = sf, max_shift_per_frame = ms\<rparr> 176 480
     = 4503599627370497 / 4503599627370496"
proof -
  have ints: "real_of_int 176 = 176" "real_of_int 480 = 480" by simp_all
  show ?thesis
    unfolding target_zoom_unclamped_def ints by (simp add: zoom_176_480(2))
qed

text \<open>
  Claim C4 (as stated, it fails). With the doubles 0.4 and 1.8, frame height 720 and face
  height 160, the zoom before clamping is 1.8000000000000003, which is neither the real
  number 1.8 nor the double 1.8. With frame height 480 and target ratio
  0.3666666666666667 the float product frame\_height * target\_face\_ratio is 176, and
  the face height 176 gives 1.0000000000000002 before clamping, not 1.0.
\<close>

theorem zoom_worked_values_differ:
  "target_zoom_unclamped
     \<lparr>target_face_ratio = round_double (4/10), min_zoom = 1, max_zoom = 3,
      smoothing_factor = round_double (15/100), max_shift_per_frame = 50\<rparr> 160 720
     \<noteq> 18/10
   \<and> target_zoom_unclamped
     \<lparr>target_face_ratio = round_double (4/10), min_zoom = 1, max_zoom = 3,
      smoothing_factor = round_double (15/100), max_shift_per_frame = 50\<rparr> 160 720
     \<noteq> round_double (18/10)
   \<and> float_mul 480 (825659931684591 / 2251799813685248) = 176
   \<and> target_zoom_unclamped
     \<lparr>target_face_ratio = 825659931684591 / 2251799813685248, min_zoom = 1, max_zoom = 3,
      smoothing_factor = round_double (15/100), max_shift_per_frame = 50\<rparr> 176 480
     \<noteq> 1"
  unfolding zoom_default_160_720 zoom_third_176_480 double_18 zoom_176_480(1) by simp

text \<open>
  Claim C4 (amended). \<open>_calculate_zoom\<close> returns min\_zoom whenever the face height is
  at most 0, whatever the frame height (no division is reached). For a positive face
  height of at most 2^1023 and a non-zero frame height of magnitude up to 2^1074 it
  returns the float
  quotient target\_face\_ratio / (h / frame\_height), each division rounded, clamped
  by \<open>max(min_zoom, min(max_zoom, _))\<close>; a non-empty frame of up to 2^1074 rows never
  leads to a division error. When the computed ratio h / frame\_height equals a
  non-zero target\_face\_ratio, the zoom before clamping is exactly 1.0. With frame
  height 720, face height 160, ratio 0.4 and bounds 1.0 and 3.0 the result is
  1.8000000000000003, unclamped.
\<close>

theorem calculate_zoom_spec:
  "(h \<le> 0 \<longrightarrow> FrameProcessor_calculate_zoom cfg h fh = Inr (min_zoom cfg))
   \<and> (0 < h \<and> real_of_int h \<le> 2 powi greatest_exponent
        \<and> fh \<noteq> 0 \<and> \<bar>real_of_int fh\<bar> \<le> 2 powi (- least_exponent) \<longrightarrow>
        FrameProcessor_calculate_zoom cfg h fh
          = Inr (max (min_zoom cfg)
                   (min (max_zoom cfg)
                      (float_truediv (target_face_ratio cfg)
                         (float_truediv (of_int h) (of_int fh))))))
   \<and> (real_of_int h \<le> 2 powi greatest_exponent
        \<and> ndarray_size f \<noteq> 0 \<and> real (rows f) \<le> 2 powi (- least_exponent) \<longrightarrow>
        (\<exists>z. FrameProcessor_calculate_zoom cfg h (int (rows f)) = Inr z))
   \<and> (target_face_ratio cfg \<noteq> 0
        \<and> float_truediv (of_int h) (of_int fh) = target_face_ratio cfg \<longrightarrow>
        target_zoom_unclamped cfg h fh = 1)
   \<and> target_zoom_unclamped
        \<lparr>target_face_ratio = round_double (4/10), min_zoom = 1, max_zoom = 3,
         smoothing_factor = sf, max_shift_per_frame = ms\<rparr> 160 720
       = 4053239664633447 / 2251799813685248
   \<and> FrameProcessor_calculate_zoom
        \<lparr>target_face_ratio = round_double (4/10), min_zoom = 1, max_zoom = 3,
         smoothing_factor = sf, max_shift_per_frame = ms\<rparr> 160 720
       = Inr (4053239664633447 / 2251799813685248)"
proof -
  have a: "h \<le> 0 \<longrightarrow> FrameProcessor_calculate_zoom cfg h fh = Inr (min_zoom cfg)"
    by (simp add: FrameProcessor_calculate_zoom_def)
  have b: "0 < h \<and> real_of_int h \<le> 2 powi greatest_exponent
        \<and> fh \<noteq> 0 \<and> \<bar>real_of_int fh\<bar> \<le> 2 powi (- least_exponent) \<longrightarrow>
        FrameProcessor_calculate_zoom cfg h fh
          = Inr (max (min_zoom cfg)
                   (min (max_zoom cfg)
                      (float_truediv (target_face_ratio cfg)
                         (float_truediv (of_int h) (of_int fh)))))"
    using calculate_zoom_positive [of h fh cfg] ratio_nonzero [of h fh]
    by (simp add: target_zoom_unclamped_def)
  have c: "real_of_int h \<le> 2 powi greatest_exponent
        \<and> ndarray_size f \<noteq> 0 \<and> real (rows f) \<le> 2 powi (- least_exponent) \<longrightarrow>
        (\<exists>z. FrameProcessor_calculate_zoom cfg h (int (rows f)) = Inr z)"
  proof
    assume H: "real_of_int h \<le> 2 powi greatest_exponent
        \<and> ndarray_size f \<noteq> 0 \<and> real (rows f) \<le> 2 powi (- least_exponent)"
    then have pos: "0 < rows f" by (simp add: nonempty_frame_rows)
    show "\<exists>z. FrameProcessor_calculate_zoom cfg h (int (rows f)) = Inr z"
    proof (cases "h \<le> 0")
      case True
      then show ?thesis by (simp add: FrameProcessor_calculate_zoom_def)
    next
      case False
      then have "float_truediv (of_int h) (of_int (int (rows f))) \<noteq> 0"
        using pos H by (intro ratio_nonzero) simp_all
      then show ?thesis
        using False pos by (simp add: calculate_zoom_positive)
    qed
  qed
  have d: "target_face_ratio cfg \<noteq> 0
        \<and> float_truediv (of_int h) (of_int fh) = target_face_ratio cfg \<longrightarrow>
        target_zoom_unclamped cfg h fh = 1"
    by (simp add: target_zoom_unclamped_def float_truediv_def [of "target_face_ratio cfg"]
          round_double_1)
  note e = zoom_default_160_720 [of sf ms]
  have q: "float_truediv 160 720 = 2001599834386887 / 9007199254740992"
    by (simp add: float_ops round_double_eval)
  have g: "FrameProcessor_calculate_zoom
        \<lparr>target_face_ratio = round_double (4/10), min_zoom = 1, max_zoom = 3,
         smoothing_factor = sf, max_shift_per_frame = ms\<rparr> 160 720
       = Inr (4053239664633447 / 2251799813685248)"
  proof -
    have "float_truediv (real_of_int 160) (real_of_int 720) \<noteq> 0" using q by simp
    then show ?thesis
      using calculate_zoom_positive
              [of 160 720 "\<lparr>target_face_ratio = round_double (4/10), min_zoom = 1,
                   max_zoom = 3, smoothing_factor = sf, max_shift_per_frame = ms\<rparr>"]
      unfolding e by simp
  qed
  from a b c d e g show ?thesis by blast
qed

theorem calculate_zoom_spec_witness:
  "(0::int) \<le> 0 \<and> (0::int) < 72 \<and> real_of_int 72 \<le> 2 powi greatest_exponent
   \<and> (720::int) \<noteq> 0 \<and> \<bar>real_of_int 720\<bar> \<le> 2 powi (- least_exponent)
   \<and> ndarray_size \<lparr>rows = 720, cols = 1280, channels = 3, pixels = []\<rparr> \<noteq> 0
   \<and> real (rows \<lparr>rows = 720, cols = 1280, channels = 3, pixels = []\<rparr>)
        \<le> 2 powi (- least_exponent)
   \<and> (1/2 :: real) \<noteq> 0 \<and> float_truediv (of_int 360) (of_int 720) = 1/2
   \<and> FrameProcessor_calculate_zoom
        \<lparr>target_face_ratio = 1/2, min_zoom = 1, max_zoom = 3, smoothing_factor = 1/4,
         max_shift_per_frame = 50\<rparr> 0 720 = Inr 1
   \<and> FrameProcessor_calculate_zoom
        \<lparr>target_face_ratio = 1/2, min_zoom = 1, max_zoom = 3, smoothing_factor = 1/4,
         max_shift_per_frame = 50\<rparr> 72 720 = Inr 3
   \<and> target_zoom_unclamped
        \<lparr>target_face_ratio = 1/2, min_zoom = 1, max_zoom = 3, smoothing_factor = 1/4,
         max_shift_per_frame = 50\<rparr> 360 720 = 1"
proof -
  let ?cfg = "\<lparr>target_face_ratio = 1/2, min_zoom = 1, max_zoom = 3,
               smoothing_factor = 1/4, max_shift_per_frame = 50\<rparr>"
  let ?f = "\<lparr>rows = 720, cols = 1280, channels = 3, pixels = []\<rparr>"
  have sz: "ndarray_size ?f \<noteq> 0" by (simp add: ndarray_size_def)
  have rng: "\<bar>real_of_int 720\<bar> \<le> 2 powi (- least_exponent)"
    "real (rows ?f) \<le> 2 powi (- least_exponent)"
    "real_of_int 72 \<le> 2 powi greatest_exponent"
    using frame_height_in_range face_height_in_range by simp_all
  have half: "float_truediv (of_int 360) (of_int 720) = 1/2"
    by (simp add: float_ops round_double_eval)
  have tenth: "float_truediv (1/2) (float_truediv (of_int 72) (of_int 720)) = 5"
  proof -
    have q: "float_truediv (of_int 72) (of_int 720) = 3602879701896397 / 36028797018963968"
      by (simp add: float_ops round_double_eval)
    have "float_truediv (1/2) (3602879701896397 / 36028797018963968) = 5"
      by (simp add: float_ops round_double_eval)
    then show ?thesis unfolding q .
  qed
  have z: "FrameProcessor_calculate_zoom ?cfg 0 720 = Inr 1"
    using calculate_zoom_spec [where cfg = ?cfg and h = 0 and fh = 720 and f = ?f] by simp
  have x: "FrameProcessor_calculate_zoom ?cfg 72 720 = Inr 3"
    using calculate_zoom_spec [where cfg = ?cfg and h = 72 and fh = 720 and f = ?f] rng tenth
    by simp
  have u: "target_zoom_unclamped ?cfg 360 720 = 1"
    using calculate_zoom_spec [where cfg = ?cfg and h = 360 and fh = 720 and f = ?f] half
    by simp
  from sz rng half z x u show ?thesis by simp
qed

section \<open>Configuration is not validated\<close>

text \<open>
  Claim C5 (as stated, it fails). A processor configuration with target\_face\_ratio 1.5,
  min\_zoom 0.5 and max\_zoom 0.2 breaks every constraint the specification lists, and
  its construction succeeds.
\<close>

theorem config_violating_spec_is_accepted:
  "ProcessorConfig_init (3/2) (1/2) (1/5) (15/100) 50
     = Inr \<lparr>target_face_ratio = 3/2, min_zoom = 1/2, max_zoom = 1/5,
            smoothing_factor = 15/100, max_shift_per_frame = 50\<rparr>
   \<and> \<not> spec_config_valid
         \<lparr>target_face_ratio = 3/2, min_zoom = 1/2, max_zoom = 1/5,
          smoothing_factor = 15/100, max_shift_per_frame = 50\<rparr>"
  by (simp add: ProcessorConfig_init_def spec_config_valid_def)

text \<open>
  Claim C5 (amended). Numeric configuration fields are not validated at construction:
  constructing a \<open>ProcessorConfig\<close> or an \<open>AppConfig\<close> never fails and stores the given
  values unchanged, whatever they are. The processor configuration that the controller
  builds copies the face ratio and the smoothing factor from the application
  configuration and uses the fixed zoom bounds 1.0 and 3.0 and the shift limit 50. The
  frame processor keeps the configuration and the shift limit as given (so a min\_zoom
  below 1.0 is returned as the zoom for a face height of 0 or less) and installs the
  smoothing factor, clamped into [0,1], in its three smoothers.
\<close>

theorem config_construction_unvalidated:
  "ProcessorConfig_init tfr mn mx sf ms
     = Inr \<lparr>target_face_ratio = tfr, min_zoom = mn, max_zoom = mx, smoothing_factor = sf,
            max_shift_per_frame = ms\<rparr>
   \<and> AppConfig_init ci res f ts zl fsr mdc mcp gpu
     = Inr \<lparr>camera_index = ci, resolution = res, fps = f, tracking_speed = ts,
            zoom_level = zl, face_size_ratio = fsr, min_detection_confidence = mdc,
            max_cpu_percent = mcp, enable_gpu = gpu\<rparr>
   \<and> processor_config_of_app app
     = Inr \<lparr>target_face_ratio = face_size_ratio app, min_zoom = 1, max_zoom = 3,
            smoothing_factor = tracking_speed app, max_shift_per_frame = 50\<rparr>
   \<and> config (FrameProcessor_init cfg) = cfg
   \<and> TransformSmoother.max_shift_per_frame (smoother (FrameProcessor_init cfg))
     = ProcessorConfig.max_shift_per_frame cfg
   \<and> FrameProcessor_calculate_zoom (config (FrameProcessor_init cfg)) 0 fh
     = Inr (min_zoom cfg)
   \<and> alpha (x_smoother (smoother (FrameProcessor_init cfg)))
     = max 0 (min 1 (smoothing_factor cfg))
   \<and> alpha (y_smoother (smoother (FrameProcessor_init cfg)))
     = max 0 (min 1 (smoothing_factor cfg))
   \<and> alpha (zoom_smoother (smoother (FrameProcessor_init cfg)))
     = max 0 (min 1 (smoothing_factor cfg))"
  by (simp add: ProcessorConfig_init_def AppConfig_init_def processor_config_of_app_def
        FrameProcessor_init_def TransformSmoother_init_def ExponentialSmoother_init_def
        FrameProcessor_calculate_zoom_def)

section \<open>Frame processor\<close>

text \<open>
  Claim C6. \<open>process\<close> with no target bbox returns the frame it was given (whether
  that is \<open>None\<close>, empty or a proper frame), raises nothing, and leaves the transform
  smoother and the configuration as they were.
\<close>

theorem process_without_target_is_identity:
  "fst (FrameProcessor_process cr p frame None) = Inr frame
   \<and> smoother (snd (FrameProcessor_process cr p frame None)) = smoother p
   \<and> config (snd (FrameProcessor_process cr p frame None)) = config p"
  by (simp add: FrameProcessor_process_def Let_def split: option.split)

text \<open>
  Claim C8. \<open>update_config\<close> makes the new configuration the active one, sets the
  factor of all three smoothers to the new smoothing factor (clamped into [0,1] by
  \<open>set_alpha\<close>, hence the factor itself when it lies in [0,1]), sets the smoother's
  shift limit to the new limit, and leaves the stored smoothed x, y and zoom values and
  the frame centre unchanged.
\<close>

theorem update_config_keeps_history:
  "config (FrameProcessor_update_config p cfg) = cfg
   \<and> alpha (x_smoother (smoother (FrameProcessor_update_config p cfg)))
       = max 0 (min 1 (smoothing_factor cfg))
   \<and> alpha (y_smoother (smoother (FrameProcessor_update_config p cfg)))
       = max 0 (min 1 (smoothing_factor cfg))
   \<and> alpha (zoom_smoother (smoother (FrameProcessor_update_config p cfg)))
       = max 0 (min 1 (smoothing_factor cfg))
   \<and> (0 \<le> smoothing_factor cfg \<and> smoothing_factor cfg \<le> 1 \<longrightarrow>
        alpha (x_smoother (smoother (FrameProcessor_update_config p cfg))) = smoothing_factor cfg
      \<and> alpha (y_smoother (smoother (FrameProcessor_update_config p cfg))) = smoothing_factor cfg
      \<and> alpha (zoom_smoother (smoother (FrameProcessor_update_config p cfg)))
          = smoothing_factor cfg)
   \<and> TransformSmoother.max_shift_per_frame (smoother (FrameProcessor_update_config p cfg))
       = ProcessorConfig.max_shift_per_frame cfg
   \<and> smoothed_value (x_smoother (smoother (FrameProcessor_update_config p cfg)))
       = smoothed_value (x_smoother (smoother p))
   \<and> smoothed_value (y_smoother (smoother (FrameProcessor_update_config p cfg)))
       = smoothed_value (y_smoother (smoother p))
   \<and> smoothed_value (zoom_smoother (smoother (FrameProcessor_update_config p cfg)))
       = smoothed_value (zoom_smoother (smoother p))
   \<and> frame_center (FrameProcessor_update_config p cfg) = frame_center p"
  by (simp add: FrameProcessor_update_config_def TransformSmoother_set_alpha_def
        ExponentialSmoother_set_alpha_def)

theorem update_config_keeps_history_witness:
  "(0::real) \<le> 1/2 \<and> (1/2::real) \<le> 1
   \<and> FrameProcessor_update_config example_processor
        \<lparr>target_face_ratio = 1/2, min_zoom = 1, max_zoom = 2, smoothing_factor = 1/2,
         max_shift_per_frame = 20\<rparr>
     = \<lparr>config = \<lparr>target_face_ratio = 1/2, min_zoom = 1, max_zoom = 2,
                  smoothing_factor = 1/2, max_shift_per_frame = 20\<rparr>,
        smoother = \<lparr>x_smoother = \<lparr>alpha = 1/2, smoothed_value = Some 640\<rparr>,
                    y_smoother = \<lparr>alpha = 1/2, smoothed_value = Some 360\<rparr>,
                    zoom_smoother = \<lparr>alpha = 1/2, smoothed_value = Some 2\<rparr>,
                    max_shift_per_frame = 20\<rparr>,
        frame_center = Some (640, 360)\<rparr>"
proof -
  let ?cfg = "\<lparr>target_face_ratio = 1/2, min_zoom = 1, max_zoom = 2, smoothing_factor = 1/2,
         max_shift_per_frame = 20\<rparr>"
  let ?p = "FrameProcessor_update_config example_processor ?cfg"
  note t = update_config_keeps_history [where p = example_processor and cfg = ?cfg]
  have cfgeq: "config ?p = ?cfg" using t by blast
  have al: "alpha (x_smoother (smoother ?p)) = 1/2" "alpha (y_smoother (smoother ?p)) = 1/2"
    "alpha (zoom_smoother (smoother ?p)) = 1/2"
    using t by simp_all
  have ms: "TransformSmoother.max_shift_per_frame (smoother ?p) = 20" using t by simp
  have sv: "smoothed_value (x_smoother (smoother ?p)) = Some 640"
    "smoothed_value (y_smoother (smoother ?p)) = Some 360"
    "smoothed_value (zoom_smoother (smoother ?p)) = Some 2"
    "frame_center ?p = Some (640, 360)"
    using t by (simp_all add: example_processor_def)
  have "?p = \<lparr>config = config ?p,
        smoother = \<lparr>x_smoother = \<lparr>alpha = alpha (x_smoother (smoother ?p)),
                                   smoothed_value = smoothed_value (x_smoother (smoother ?p))\<rparr>,
                    y_smoother = \<lparr>alpha = alpha (y_smoother (smoother ?p)),
                                   smoothed_value = smoothed_value (y_smoother (smoother ?p))\<rparr>,
                    zoom_smoother = \<lparr>alpha = alpha (zoom_smoother (smoother ?p)),
                                   smoothed_value = smoothed_value (zoom_smoother (smoother ?p))\<rparr>,
                    max_shift_per_frame = TransformSmoother.max_shift_per_frame (smoother ?p)\<rparr>,
        frame_center = frame_center ?p\<rparr>"
    by simp
  then show ?thesis unfolding cfgeq al ms sv by simp
qed

text \<open>
  Claim C10. For every target bbox, \<open>process\<close> on a \<open>None\<close> frame or on a frame
  of size 0 returns that frame, raises nothing, and leaves the whole processor, its
  smoother state included, unchanged.
\<close>

theorem process_empty_frame_is_identity:
  "FrameProcessor_process cr p None target_bbox = (Inr None, p)
   \<and> (ndarray_size f = 0 \<longrightarrow>
        FrameProcessor_process cr p (Some f) target_bbox = (Inr (Some f), p))"
  by (simp add: FrameProcessor_process_def)

theorem process_empty_frame_is_identity_witness:
  "ndarray_size \<lparr>rows = 0, cols = 0, channels = 3, pixels = []\<rparr> = 0
   \<and> FrameProcessor_process (\<lambda>f y1 y2 x1 x2 w h. Inl cv2_error) example_processor
        (Some \<lparr>rows = 0, cols = 0, channels = 3, pixels = []\<rparr>) (Some (560, 260, 160, 160))
      = (Inr (Some \<lparr>rows = 0, cols = 0, channels = 3, pixels = []\<rparr>), example_processor)"
proof -
  let ?f = "\<lparr>rows = 0, cols = 0, channels = 3, pixels = []\<rparr>"
  have h: "ndarray_size ?f = 0" by (simp add: ndarray_size_def)
  show ?thesis
    using h process_empty_frame_is_identity
            [where f = ?f and p = example_processor
               and cr = "\<lambda>f y1 y2 x1 x2 w h. Inl cv2_error"
               and target_bbox = "Some (560, 260, 160, 160)"]
    by simp
qed

end
